theory Spec2Isabelle
  imports Complex_Main "HOL-Library.Sublist" "HOL-Library.Multiset"
begin

section \<open>Conventions\<close>

text \<open>
  The development embeds the indexing and retrieval pipeline of the code search engine
  (\<^verbatim>\<open>shared/CodeSearchEngine.ts\<close> and \<^verbatim>\<open>http-server.ts\<close>): the streaming chunker, the
  pattern matcher and file discovery, the batch ingestor, the local embedding provider and
  the query operations. Every \<^verbatim>\<open>await\<close> of one operation runs after the previous one, so
  an operation is a sequential function. What it reads from outside (the file system,
  the vector store, the embedding endpoint, the clock, the path library) is an argument;
  what it changes outside (the vector store) is a state passed in and returned. A thrown
  value is a result \<open>Inl e\<close>. Log output (\<^verbatim>\<open>console.error\<close>) changes no result and is
  left out.
\<close>

section \<open>Strings\<close>

text \<open>
  A JavaScript string is modelled as a \<^typ>\<open>string\<close>, a list of characters, each standing
  for one code unit in the range U+0000..U+00FF, so that \<^const>\<open>length\<close> is the
  \<^verbatim>\<open>.length\<close> of the source and \<open>@\<close> is \<^verbatim>\<open>+\<close>.
\<close>

text \<open>The white space that \<^verbatim>\<open>String.prototype.trim\<close> strips, within that range:
  TAB, LF, VT, FF, CR, SPACE and NO-BREAK SPACE.\<close>

definition is_ws :: "char \<Rightarrow> bool" where
  "is_ws c = (of_char c \<in> {9, 10, 11, 12, 13, 32, 160 :: nat})"

text \<open>\<^verbatim>\<open>s.trim()\<close>\<close>

definition trim :: "string \<Rightarrow> string" where
  "trim s = rev (dropWhile is_ws (rev (dropWhile is_ws s)))"

text \<open>\<^verbatim>\<open>xs.join(sep)\<close> on an array of strings.\<close>

fun join :: "string \<Rightarrow> string list \<Rightarrow> string" where
  "join sep [] = []"
| "join sep [x] = x"
| "join sep (x # y # ys) = x @ sep @ join sep (y # ys)"

abbreviation newline :: string where
  "newline \<equiv> [CHR 0x0A]"

section \<open>StreamingChunker: \<^verbatim>\<open>processFileWithStreaming\<close>\<close>

record chunk =
  content :: string
  file_path :: string
  file_type :: string
  chunk_index :: nat

text \<open>The variables the two event handlers close over.\<close>

record chunker =
  chunks :: "chunk list"
  currentChunk :: string
  chunkIndex :: nat
  lineCount :: nat

definition chunker_init :: chunker where
  "chunker_init = \<lparr>chunks = [], currentChunk = [], chunkIndex = 0, lineCount = 0\<rparr>"

text \<open>
  The \<^verbatim>\<open>'line'\<close> handler. The early \<^verbatim>\<open>return\<close> for a line of more than 10000
  characters is the first branch. \<^verbatim>\<open>maxChunkSize\<close> is a JavaScript number; it is an
  \<^typ>\<open>int\<close> here, so that zero and negative sizes are inputs too.
\<close>

definition onLine :: "string \<Rightarrow> string \<Rightarrow> int \<Rightarrow> chunker \<Rightarrow> string \<Rightarrow> chunker" where
  "onLine relativePath fileType maxChunkSize st line =
    (let st1 = st\<lparr>lineCount := lineCount st + 1\<rparr> in
     if length line > 10000 then st1
     else if int (length (currentChunk st1) + length line) > maxChunkSize
             \<and> length (currentChunk st1) > 0
     then st1\<lparr>chunks := chunks st1 @
                  [\<lparr>content = trim (currentChunk st1), file_path = relativePath,
                    file_type = fileType, chunk_index = chunkIndex st1\<rparr>],
               chunkIndex := chunkIndex st1 + 1,
               currentChunk := line\<rparr>
     else st1\<lparr>currentChunk :=
                 currentChunk st1 @ (if currentChunk st1 \<noteq> [] then newline else []) @ line\<rparr>)"

text \<open>The \<^verbatim>\<open>'close'\<close> handler: the value the promise resolves with.\<close>

definition onClose :: "string \<Rightarrow> string \<Rightarrow> chunker \<Rightarrow> chunk list" where
  "onClose relativePath fileType st =
    (if trim (currentChunk st) \<noteq> []
     then chunks st @
            [\<lparr>content = trim (currentChunk st), file_path = relativePath,
              file_type = fileType, chunk_index = chunkIndex st\<rparr>]
     else chunks st)"

text \<open>
  The file is the list of lines that \<^verbatim>\<open>readline\<close> delivers before \<^verbatim>\<open>'close'\<close>.
\<close>

definition processFileWithStreaming :: "string list \<Rightarrow> string \<Rightarrow> string \<Rightarrow> int \<Rightarrow> chunk list" where
  "processFileWithStreaming lines relativePath fileType maxChunkSize =
     onClose relativePath fileType
       (foldl (onLine relativePath fileType maxChunkSize) chunker_init lines)"

section \<open>Chunk indices\<close>

lemma onLine_index_inv:
  assumes "chunkIndex st = length (chunks st)"
      and "map chunk_index (chunks st) = [0..<length (chunks st)]"
  shows "chunkIndex (onLine rp ft m st l) = length (chunks (onLine rp ft m st l))
       \<and> map chunk_index (chunks (onLine rp ft m st l))
           = [0..<length (chunks (onLine rp ft m st l))]"
  using assms by (simp add: onLine_def Let_def)

lemma foldl_onLine_index_inv:
  "chunkIndex (foldl (onLine rp ft m) chunker_init ls)
     = length (chunks (foldl (onLine rp ft m) chunker_init ls))
   \<and> map chunk_index (chunks (foldl (onLine rp ft m) chunker_init ls))
     = [0..<length (chunks (foldl (onLine rp ft m) chunker_init ls))]"
proof (induction ls rule: rev_induct)
  case Nil
  show ?case by (simp add: chunker_init_def)
next
  case (snoc l ls)
  then show ?case using onLine_index_inv by simp
qed

text \<open>
  C2. For every file (every list of lines) and every \<^verbatim>\<open>maxChunkSize\<close>, the chunks
  returned carry, in emission order, the indices \<open>0, 1, ..., N - 1\<close>, where \<open>N\<close> is the
  number of chunks returned: contiguous, without gaps, strictly increasing.
\<close>

theorem chunk_index_contiguous:
  "map chunk_index (processFileWithStreaming lines relativePath fileType maxChunkSize)
     = [0..<length (processFileWithStreaming lines relativePath fileType maxChunkSize)]"
  using foldl_onLine_index_inv [of relativePath fileType maxChunkSize lines]
  by (simp add: processFileWithStreaming_def onClose_def)

section \<open>Reconstruction\<close>

text \<open>Facts about \<^const>\<open>trim\<close> and \<^const>\<open>join\<close>.\<close>

lemma trim_ws_prefix: "(\<And>c. c \<in> set w \<Longrightarrow> is_ws c) \<Longrightarrow> trim (w @ b) = trim b"
  by (simp add: trim_def)

lemma trim_ws_suffix:
  assumes "\<And>c. c \<in> set w \<Longrightarrow> is_ws c"
  shows "trim (b @ w) = trim b"
proof (cases "\<forall>c\<in>set b. is_ws c")
  case True
  then have bw: "dropWhile is_ws (b @ w) = []" using assms by auto
  have b: "dropWhile is_ws b = []" using True by simp
  show ?thesis unfolding trim_def bw b by simp
next
  case False
  then obtain x where "x \<in> set b" "\<not> is_ws x" by blast
  then have bw: "dropWhile is_ws (b @ w) = dropWhile is_ws b @ w" by simp
  have "dropWhile is_ws (rev w @ rev (dropWhile is_ws b))
          = dropWhile is_ws (rev (dropWhile is_ws b))"
    by (rule dropWhile_append2) (simp add: assms)
  then show ?thesis unfolding trim_def bw by simp
qed

lemma trim_Nil_all_ws:
  assumes "trim y = []"
  shows "\<forall>c\<in>set y. is_ws c"
proof -
  from assms have "\<forall>c\<in>set (dropWhile is_ws y). is_ws c"
    by (simp add: trim_def)
  then have "dropWhile is_ws y = []"
    by (metis hd_dropWhile list.set_sel(1))
  then show ?thesis by simp
qed

lemma join_snoc: "g \<noteq> [] \<Longrightarrow> join sep (g @ [l]) = join sep g @ sep @ l"
  by (induction sep g rule: join.induct) auto

lemma join_append:
  "xs \<noteq> [] \<Longrightarrow> ys \<noteq> [] \<Longrightarrow> join sep (xs @ ys) = join sep xs @ sep @ join sep ys"
  by (induction sep xs rule: join.induct) (auto simp: neq_Nil_conv)

lemma join_concat:
  "[] \<notin> set gs \<Longrightarrow> join sep (concat gs) = join sep (map (join sep) gs)"
proof (induction gs rule: rev_induct)
  case Nil
  show ?case by simp
next
  case (snoc g gs)
  show ?case
  proof (cases "gs = []")
    case True
    then show ?thesis by simp
  next
    case False
    then have "concat gs \<noteq> []" using snoc.prems by (cases gs) auto
    moreover have "g \<noteq> []" using snoc.prems by auto
    moreover have "map (join sep) gs \<noteq> []" using False by simp
    ultimately show ?thesis using snoc
      by (simp add: join_append join_snoc)
  qed
qed

text \<open>
  The invariant of the line handler, for lines that are not dropped: the lines read so far
  split into one non-empty group per chunk already emitted, whose text trims to that
  chunk's content, and a last group, whose text is the buffer after some leading newlines
  (the buffer forgets the empty lines read while it was empty).
\<close>

definition chunk_groups :: "string list \<Rightarrow> chunker \<Rightarrow> string list list \<Rightarrow> string list \<Rightarrow> bool" where
  "chunk_groups ls st gs g \<longleftrightarrow>
     ls = concat gs @ g \<and> [] \<notin> set gs
   \<and> map content (chunks st) = map (\<lambda>grp. trim (join newline grp)) gs
   \<and> (if g = [] then currentChunk st = []
      else \<exists>w. set w \<subseteq> {CHR 0x0A} \<and> join newline g = w @ currentChunk st)"

lemma is_ws_newline: "set w \<subseteq> {CHR 0x0A} \<Longrightarrow> c \<in> set w \<Longrightarrow> is_ws c"
  by (auto simp: is_ws_def)

lemma chunk_groups_init: "chunk_groups [] chunker_init [] []"
  by (simp add: chunk_groups_def chunker_init_def)

lemma chunk_groups_step:
  assumes inv: "chunk_groups ls st gs g" and short: "length l \<le> 10000"
  shows "\<exists>gs' g'. chunk_groups (ls @ [l]) (onLine rp ft m st l) gs' g'"
proof (cases "int (length (currentChunk st) + length l) > m \<and> length (currentChunk st) > 0")
  case True
  then have ne: "currentChunk st \<noteq> []" by auto
  with inv have g: "g \<noteq> []" by (auto simp: chunk_groups_def)
  with inv obtain w where w: "set w \<subseteq> {CHR 0x0A}" "join newline g = w @ currentChunk st"
    by (auto simp: chunk_groups_def)
  have t: "trim (join newline g) = trim (currentChunk st)"
    unfolding w(2) by (rule trim_ws_prefix) (rule is_ws_newline [OF w(1)])
  have st': "chunks (onLine rp ft m st l) = chunks st @
                  [\<lparr>content = trim (currentChunk st), file_path = rp,
                    file_type = ft, chunk_index = chunkIndex st\<rparr>]"
       "currentChunk (onLine rp ft m st l) = l"
    using True short by (simp_all add: onLine_def Let_def)
  have "chunk_groups (ls @ [l]) (onLine rp ft m st l) (gs @ [g]) [l]"
    unfolding chunk_groups_def st' using inv g t
    by (auto simp: chunk_groups_def intro: exI [of _ "[]"])
  then show ?thesis by blast
next
  case False
  then have st': "chunks (onLine rp ft m st l) = chunks st"
       "currentChunk (onLine rp ft m st l)
          = currentChunk st @ (if currentChunk st \<noteq> [] then newline else []) @ l"
    using short by (auto simp add: onLine_def Let_def)
  have "\<exists>w. set w \<subseteq> {CHR 0x0A} \<and> join newline (g @ [l]) = w @ currentChunk (onLine rp ft m st l)"
  proof (cases "g = []")
    case True
    with inv have "currentChunk st = []" by (simp add: chunk_groups_def)
    with True show ?thesis unfolding st' by (auto intro: exI [of _ "[]"])
  next
    case g: False
    with inv obtain w where w: "set w \<subseteq> {CHR 0x0A}" "join newline g = w @ currentChunk st"
      by (auto simp: chunk_groups_def)
    show ?thesis
    proof (cases "currentChunk st = []")
      case True
      then have "join newline (g @ [l]) = (w @ newline) @ currentChunk (onLine rp ft m st l)"
        unfolding st' using w g by (simp add: join_snoc)
      moreover have "set (w @ newline) \<subseteq> {CHR 0x0A}" using w by simp
      ultimately show ?thesis by blast
    next
      case False
      then have "join newline (g @ [l]) = w @ currentChunk (onLine rp ft m st l)"
        unfolding st' using w g by (simp add: join_snoc)
      with w show ?thesis by blast
    qed
  qed
  then have "chunk_groups (ls @ [l]) (onLine rp ft m st l) gs (g @ [l])"
    using inv unfolding chunk_groups_def st'(1) by simp
  then show ?thesis by blast
qed

lemma chunk_groups_foldl:
  assumes "\<forall>l\<in>set ls. length l \<le> 10000"
  shows "\<exists>gs g. chunk_groups ls (foldl (onLine rp ft m) chunker_init ls) gs g"
  using assms
proof (induction ls rule: rev_induct)
  case Nil
  show ?case using chunk_groups_init by auto
next
  case (snoc l ls)
  then obtain gs g where "chunk_groups ls (foldl (onLine rp ft m) chunker_init ls) gs g"
    by auto
  moreover have "length l \<le> 10000" using snoc.prems by simp
  ultimately show ?case using chunk_groups_step by simp
qed

text \<open>
  The statement for a list of lines: the lines joined with newlines are the join of one
  segment per chunk, and each chunk's content is the trim of its segment; with no chunk,
  the joined lines trim to the empty string.
\<close>

lemma reconstruction_lines:
  assumes "\<forall>l\<in>set lines. length l \<le> 10000"
  shows "(processFileWithStreaming lines relativePath fileType maxChunkSize = []
            \<and> trim (join newline lines) = [])
       \<or> (\<exists>segs. join newline segs = join newline lines
             \<and> list_all2 (\<lambda>s c. trim s = content c) segs
                  (processFileWithStreaming lines relativePath fileType maxChunkSize))"
proof -
  define st where "st = foldl (onLine relativePath fileType maxChunkSize) chunker_init lines"
  obtain gs g where inv: "chunk_groups lines st gs g"
    using chunk_groups_foldl [OF assms] unfolding st_def by blast
  have res: "processFileWithStreaming lines relativePath fileType maxChunkSize
               = onClose relativePath fileType st"
    by (simp add: processFileWithStreaming_def st_def)
  from inv have lines: "lines = concat gs @ g" and gs: "[] \<notin> set gs"
    and cs: "map content (chunks st) = map (\<lambda>grp. trim (join newline grp)) gs"
    by (auto simp: chunk_groups_def)
  have tg: "trim (join newline g) = trim (currentChunk st)"
  proof (cases "g = []")
    case True
    with inv show ?thesis by (simp add: chunk_groups_def)
  next
    case False
    with inv obtain w where w: "set w \<subseteq> {CHR 0x0A}" "join newline g = w @ currentChunk st"
      by (auto simp: chunk_groups_def)
    show ?thesis unfolding w(2) by (rule trim_ws_prefix) (rule is_ws_newline [OF w(1)])
  qed
  have l2: "list_all2 (\<lambda>s c. trim s = content c) (map (join newline) gs) (chunks st)"
    using cs by (simp add: list_all2_conv_all_nth list_eq_iff_nth_eq)
  show ?thesis
  proof (cases "trim (currentChunk st) = []")
    case False
    then have g: "g \<noteq> []" using inv by (auto simp: chunk_groups_def trim_def)
    have "join newline (map (join newline) (gs @ [g])) = join newline lines"
      using join_concat [of "gs @ [g]" newline] gs g lines by simp
    moreover have "list_all2 (\<lambda>s c. trim s = content c) (map (join newline) (gs @ [g]))
                     (onClose relativePath fileType st)"
      using False l2 tg by (simp add: onClose_def list_all2_appendI)
    ultimately show ?thesis unfolding res by blast
  next
    case True
    then have close: "onClose relativePath fileType st = chunks st"
      by (simp add: onClose_def)
    have gws: "\<And>c. c \<in> set (join newline g) \<Longrightarrow> is_ws c"
      using trim_Nil_all_ws [of "join newline g"] tg True by simp
    show ?thesis
    proof (cases "gs = []")
      case True
      then have "chunks st = []" using cs by simp
      moreover have "trim (join newline lines) = []"
        using True lines tg \<open>trim (currentChunk st) = []\<close> by simp
      ultimately show ?thesis unfolding res close by simp
    next
      case False
      then obtain gs0 gl where gs0: "gs = gs0 @ [gl]"
        by (metis rev_exhaust)
      then have gl: "gl \<noteq> []" using gs by auto
      define segs where "segs = map (join newline) gs0 @ [join newline (gl @ g)]"
      have tr: "trim (join newline (gl @ g)) = trim (join newline gl)"
      proof (cases "g = []")
        case True
        then show ?thesis by simp
      next
        case False
        have "trim (join newline gl @ (newline @ join newline g)) = trim (join newline gl)"
          by (rule trim_ws_suffix) (use gws in \<open>auto simp: is_ws_def\<close>)
        then show ?thesis using gl False by (simp add: join_append)
      qed
      have "lines = concat (gs0 @ [gl @ g])" using lines gs0 by simp
      moreover have "[] \<notin> set (gs0 @ [gl @ g])" using gs gs0 gl by auto
      ultimately have "join newline lines = join newline (map (join newline) (gs0 @ [gl @ g]))"
        using join_concat by blast
      then have j: "join newline segs = join newline lines" by (simp add: segs_def)
      have "list_all2 (\<lambda>s c. trim s = content c) segs (chunks st)"
        using l2 tr unfolding gs0 segs_def
        by (auto simp: list_all2_append1 list_all2_Cons1)
      with j show ?thesis unfolding res close by blast
    qed
  qed
qed

subsection \<open>The file as a string\<close>

text \<open>
  The lines come from the line reader of the runtime library
  (\<^verbatim>\<open>createInterface({input, crlfDelay: Infinity})\<close>), which is not code of the repository:
  a line ends at LF, at CR LF (one line ending, whatever the delay between the two) or at
  a lone CR; the line endings are not part of the lines; what follows the last line
  ending is delivered as a last line if it is not empty.
\<close>

fun split_lines :: "string \<Rightarrow> string \<Rightarrow> string list" where
  "split_lines cur [] = (if cur = [] then [] else [cur])"
| "split_lines cur [c] = (if c = CHR 0x0A \<or> c = CHR 0x0D then [cur] else [cur @ [c]])"
| "split_lines cur (c # d # ds) =
     (if c = CHR 0x0D \<and> d = CHR 0x0A then cur # split_lines [] ds
      else if c = CHR 0x0A \<or> c = CHR 0x0D then cur # split_lines [] (d # ds)
      else split_lines (cur @ [c]) (d # ds))"

definition readline_lines :: "string \<Rightarrow> string list" where
  "readline_lines fileContent = split_lines [] fileContent"

text \<open>\<^verbatim>\<open>processFileWithStreaming\<close> on a file given by its content.\<close>

definition processFileContent :: "string \<Rightarrow> string \<Rightarrow> string \<Rightarrow> int \<Rightarrow> chunk list" where
  "processFileContent fileContent relativePath fileType maxChunkSize =
     processFileWithStreaming (readline_lines fileContent) relativePath fileType maxChunkSize"

text \<open>The content with every line ending (CR LF, lone CR) written as LF.\<close>

fun normalise_newlines :: "string \<Rightarrow> string" where
  "normalise_newlines [] = []"
| "normalise_newlines [c] = (if c = CHR 0x0D then [CHR 0x0A] else [c])"
| "normalise_newlines (c # d # ds) =
     (if c = CHR 0x0D \<and> d = CHR 0x0A then CHR 0x0A # normalise_newlines ds
      else if c = CHR 0x0D then CHR 0x0A # normalise_newlines (d # ds)
      else c # normalise_newlines (d # ds))"

lemma split_lines_nonempty: "s \<noteq> [] \<Longrightarrow> split_lines cur s \<noteq> []"
  by (induction cur s rule: split_lines.induct) auto

lemma join_Cons: "rest \<noteq> [] \<Longrightarrow> join sep (x # rest) = x @ sep @ join sep rest"
  by (cases rest) auto

text \<open>The lines joined with LF are the normalised content without its final line ending.\<close>

lemma split_lines_join:
  "cur @ normalise_newlines s
     = join newline (split_lines cur s)
       @ (if s \<noteq> [] \<and> (last s = CHR 0x0A \<or> last s = CHR 0x0D) then newline else [])"
proof (induction cur s rule: split_lines.induct)
  case (1 cur)
  show ?case by simp
next
  case (2 cur c)
  show ?case by auto
next
  case (3 cur c d ds)
  show ?case
  proof (cases "c = CHR 0x0D \<and> d = CHR 0x0A")
    case crlf: True
    show ?thesis
    proof (cases "ds = []")
      case True
      then show ?thesis using crlf by simp
    next
      case False
      then have "split_lines [] ds \<noteq> []" by (rule split_lines_nonempty)
      then have "join newline (cur # split_lines [] ds)
                   = cur @ newline @ join newline (split_lines [] ds)"
        by (rule join_Cons)
      then show ?thesis using crlf False 3(1) by simp
    qed
  next
    case nocrlf: False
    show ?thesis
    proof (cases "c = CHR 0x0A \<or> c = CHR 0x0D")
      case True
      have "split_lines [] (d # ds) \<noteq> []" by (rule split_lines_nonempty) simp
      then have "join newline (cur # split_lines [] (d # ds))
                   = cur @ newline @ join newline (split_lines [] (d # ds))"
        by (rule join_Cons)
      then show ?thesis using nocrlf True 3(2) by auto
    next
      case False
      then show ?thesis using nocrlf 3(3) by simp
    qed
  qed
qed

lemma normalise_newlines_no_cr: "CHR 0x0D \<notin> set s \<Longrightarrow> normalise_newlines s = s"
  by (induction s rule: normalise_newlines.induct) auto

lemma join_append_last:
  "segs \<noteq> [] \<Longrightarrow> join sep (butlast segs @ [last segs @ t]) = join sep segs @ t"
proof (induction segs rule: rev_induct)
  case Nil
  then show ?case by simp
next
  case (snoc x xs)
  show ?case
  proof (cases "xs = []")
    case True
    then show ?thesis by simp
  next
    case False
    then show ?thesis by (simp add: join_snoc)
  qed
qed

text \<open>
  C1 (as amended). Let every line of the file have at most 10000 characters. Then the
  content of the file, with every line ending written as LF, is the join, with newlines,
  of one segment per chunk, in \<^verbatim>\<open>chunk_index\<close> order (the order of the list, by C2), and
  each chunk's content is the trim of its segment: the chunks joined with newlines are
  the normalised content up to white space at the two ends of each chunk. When no chunk
  is returned, the whole content trims to the empty string. A file without CR is its own
  normalised content, so for such a file the statement is about the original content.
\<close>

theorem reconstruction_normalised:
  assumes "\<forall>l\<in>set (readline_lines fileContent). length l \<le> 10000"
  shows "((processFileContent fileContent relativePath fileType maxChunkSize = []
             \<and> trim (normalise_newlines fileContent) = [])
          \<or> (\<exists>segs. join newline segs = normalise_newlines fileContent
                \<and> list_all2 (\<lambda>s c. trim s = content c) segs
                     (processFileContent fileContent relativePath fileType maxChunkSize)))
       \<and> (CHR 0x0D \<notin> set fileContent \<longrightarrow> normalise_newlines fileContent = fileContent)"
proof -
  let ?lines = "readline_lines fileContent"
  let ?cs = "processFileContent fileContent relativePath fileType maxChunkSize"
  define t where "t = (if fileContent \<noteq> []
        \<and> (last fileContent = CHR 0x0A \<or> last fileContent = CHR 0x0D) then newline else [])"
  have t: "normalise_newlines fileContent = join newline ?lines @ t"
    using split_lines_join [of "[]" fileContent] unfolding t_def readline_lines_def by simp
  have tw: "t = [] \<or> t = newline" by (simp add: t_def)
  have ws: "\<And>c. c \<in> set t \<Longrightarrow> is_ws c" using tw by (auto simp: is_ws_def)
  have cs: "?cs = processFileWithStreaming ?lines relativePath fileType maxChunkSize"
    by (simp add: processFileContent_def)
  from reconstruction_lines [OF assms, of relativePath fileType maxChunkSize]
  have "(?cs = [] \<and> trim (normalise_newlines fileContent) = [])
          \<or> (\<exists>segs. join newline segs = normalise_newlines fileContent
                \<and> list_all2 (\<lambda>s c. trim s = content c) segs ?cs)"
  proof (elim disjE conjE exE)
    assume "processFileWithStreaming ?lines relativePath fileType maxChunkSize = []"
      and "trim (join newline ?lines) = []"
    then show ?thesis unfolding t cs using trim_ws_suffix [of t "join newline ?lines"] ws
      by simp
  next
    fix segs
    assume j: "join newline segs = join newline ?lines"
      and l: "list_all2 (\<lambda>s c. trim s = content c) segs
                (processFileWithStreaming ?lines relativePath fileType maxChunkSize)"
    show ?thesis
    proof (cases "segs = []")
      case True
      then have "?cs = []" using l cs by simp
      moreover have "trim (normalise_newlines fileContent) = []"
        unfolding t using j True trim_ws_suffix [of t "[]"] ws by (simp add: trim_def)
      ultimately show ?thesis by blast
    next
      case False
      define segs' where "segs' = butlast segs @ [last segs @ t]"
      have j': "join newline segs' = normalise_newlines fileContent"
        unfolding segs'_def t using join_append_last [OF False] j by simp
      have tl: "trim (last segs @ t) = trim (last segs)"
        by (rule trim_ws_suffix) (rule ws)
      have "list_all2 (\<lambda>s c. trim s = content c) (butlast segs @ [last segs]) ?cs"
        using l False unfolding cs [symmetric] by simp
      then obtain cs0 cs1 where c01: "?cs = cs0 @ cs1"
        and l0: "list_all2 (\<lambda>s c. trim s = content c) (butlast segs) cs0"
        and l1': "list_all2 (\<lambda>s c. trim s = content c) [last segs] cs1"
        unfolding list_all2_append1 by blast
      from l1' obtain c where c1: "cs1 = [c]" and l1: "trim (last segs) = content c"
        unfolding list_all2_Cons1 by auto
      have c: "?cs = cs0 @ [c]" using c01 c1 by simp
      have "list_all2 (\<lambda>s c. trim s = content c) segs' ?cs"
        unfolding segs'_def c using l0 l1 tl by (simp add: list_all2_appendI)
      with j' show ?thesis by blast
    qed
  qed
  moreover have "CHR 0x0D \<notin> set fileContent \<longrightarrow> normalise_newlines fileContent = fileContent"
    by (simp add: normalise_newlines_no_cr)
  ultimately show ?thesis by blast
qed

theorem reconstruction_normalised_witness:
  "length ''ab '' \<le> 10000 \<and> length ''cd'' \<le> 10000
   \<and> readline_lines (''ab '' @ [CHR 0x0D, CHR 0x0A] @ ''cd'' @ [CHR 0x0A]) = [''ab '', ''cd'']
   \<and> normalise_newlines (''ab '' @ [CHR 0x0D, CHR 0x0A] @ ''cd'' @ [CHR 0x0A])
       = ''ab '' @ [CHR 0x0A] @ ''cd'' @ [CHR 0x0A]
   \<and> map content
        (processFileContent (''ab '' @ [CHR 0x0D, CHR 0x0A] @ ''cd'' @ [CHR 0x0A]) ''f.txt'' ''txt'' 3)
       = [''ab'', ''cd'']
   \<and> (\<exists>segs. join newline segs
                = normalise_newlines (''ab '' @ [CHR 0x0D, CHR 0x0A] @ ''cd'' @ [CHR 0x0A])
             \<and> list_all2 (\<lambda>s c. trim s = content c) segs
                  (processFileContent (''ab '' @ [CHR 0x0D, CHR 0x0A] @ ''cd'' @ [CHR 0x0A])
                     ''f.txt'' ''txt'' 3))
   \<and> CHR 0x0D \<notin> set (''ab '' @ [CHR 0x0A] @ ''cd'')
   \<and> normalise_newlines (''ab '' @ [CHR 0x0A] @ ''cd'') = ''ab '' @ [CHR 0x0A] @ ''cd''"
  using reconstruction_normalised
          [of "''ab '' @ [CHR 0x0D, CHR 0x0A] @ ''cd'' @ [CHR 0x0A]" "''f.txt''" "''txt''" 3]
    reconstruction_normalised [of "''ab '' @ [CHR 0x0A] @ ''cd''" "''f.txt''" "''txt''" 3]
  by (simp add: readline_lines_def processFileContent_def processFileWithStreaming_def
        onLine_def onClose_def chunker_init_def trim_def is_ws_def Let_def)

text \<open>
  For a file with CR LF line endings the statement fails of the original content: the
  file \<open>a CR LF b\<close> gives the single chunk \<open>a LF b\<close>, and the file has no white space at its
  ends to trim.
\<close>

theorem reconstruction_crlf_counterexample:
  "readline_lines [CHR ''a'', CHR 0x0D, CHR 0x0A, CHR ''b''] = [''a'', ''b'']
   \<and> map content
        (processFileContent [CHR ''a'', CHR 0x0D, CHR 0x0A, CHR ''b''] ''f.txt'' ''txt'' 1500)
       = [[CHR ''a'', CHR 0x0A, CHR ''b'']]
   \<and> join newline (map content
        (processFileContent [CHR ''a'', CHR 0x0D, CHR 0x0A, CHR ''b''] ''f.txt'' ''txt'' 1500))
       \<noteq> [CHR ''a'', CHR 0x0D, CHR 0x0A, CHR ''b'']
   \<and> trim [CHR ''a'', CHR 0x0D, CHR 0x0A, CHR ''b''] = [CHR ''a'', CHR 0x0D, CHR 0x0A, CHR ''b'']
   \<and> trim [CHR ''a'', CHR 0x0D, CHR 0x0A, CHR ''b''] \<noteq> [CHR ''a'', CHR 0x0A, CHR ''b'']"
  by (simp add: readline_lines_def processFileContent_def processFileWithStreaming_def
        onLine_def onClose_def chunker_init_def trim_def is_ws_def Let_def)

section \<open>Chunk size\<close>

text \<open>
  C3. The bound does not hold of the code. With the default \<^verbatim>\<open>maxChunkSize\<close> of 1500, a
  file of two lines of 750 characters gives one chunk of 1501 characters, made of two
  lines that are each shorter than 1500: the test
  \<^verbatim>\<open>currentChunk.length + line.length > maxChunkSize\<close> leaves out the newline that joins
  the line to the buffer.
\<close>

theorem chunk_size_bound_failing_input:
  "processFileWithStreaming [replicate 750 CHR ''a'', replicate 750 CHR ''b''] ''f.txt'' ''txt'' 1500
     = [\<lparr>content = replicate 750 CHR ''a'' @ newline @ replicate 750 CHR ''b'',
         file_path = ''f.txt'', file_type = ''txt'', chunk_index = 0\<rparr>]
   \<and> length (replicate 750 CHR ''a'' @ newline @ replicate 750 CHR ''b'') = 1501"
  by (simp add: processFileWithStreaming_def onLine_def onClose_def chunker_init_def
        trim_def is_ws_def Let_def dropWhile_append3)

text \<open>
  What the code does guarantee is one character more: every chunk has at most
  \<^verbatim>\<open>maxChunkSize + 1\<close> characters, unless it is the trim of a single line longer than
  \<^verbatim>\<open>maxChunkSize\<close>.
\<close>

lemma length_trim_le: "length (trim s) \<le> length s"
proof -
  have "length (dropWhile is_ws (rev (dropWhile is_ws s))) \<le> length (rev (dropWhile is_ws s))"
    by (rule length_dropWhile_le)
  also have "\<dots> \<le> length s" by (simp add: length_dropWhile_le)
  finally show ?thesis by (simp add: trim_def)
qed

definition size_ok :: "int \<Rightarrow> string list \<Rightarrow> string \<Rightarrow> bool" where
  "size_ok m ls b \<longleftrightarrow> int (length b) \<le> m + 1 \<or> (b \<in> set ls \<and> int (length b) > m)"

lemma size_ok_mono: "size_ok m ls b \<Longrightarrow> size_ok m (ls @ [l]) b"
  by (auto simp: size_ok_def)

lemma onLine_size_ok:
  assumes "size_ok m ls (currentChunk st) \<or> currentChunk st = []"
      and "\<forall>c\<in>set (chunks st). \<exists>b. content c = trim b \<and> size_ok m ls b"
  shows "(size_ok m (ls @ [l]) (currentChunk (onLine rp ft m st l))
            \<or> currentChunk (onLine rp ft m st l) = [])
       \<and> (\<forall>c\<in>set (chunks (onLine rp ft m st l)). \<exists>b. content c = trim b \<and> size_ok m (ls @ [l]) b)"
proof -
  have old: "\<forall>c\<in>set (chunks st). \<exists>b. content c = trim b \<and> size_ok m (ls @ [l]) b"
    using assms(2) size_ok_mono by blast
  have cur: "size_ok m (ls @ [l]) (currentChunk st) \<or> currentChunk st = []"
    using assms(1) size_ok_mono by blast
  have line: "size_ok m (ls @ [l]) l"
    by (auto simp: size_ok_def)
  show ?thesis
  proof (cases "length l > 10000")
    case True
    then show ?thesis using old cur by (simp add: onLine_def Let_def)
  next
    case short: False
    show ?thesis
    proof (cases "int (length (currentChunk st) + length l) > m \<and> length (currentChunk st) > 0")
      case True
      then have "size_ok m (ls @ [l]) (currentChunk st)" using cur by auto
      then show ?thesis using True short old line
        by (auto simp: onLine_def Let_def)
    next
      case False
      show ?thesis
      proof (cases "currentChunk st = []")
        case True
        then show ?thesis using False short old line by (auto simp: onLine_def Let_def)
      next
        case ne: False
        then have "int (length (currentChunk st) + length l) \<le> m" using False by auto
        then have "size_ok m (ls @ [l]) (currentChunk st @ newline @ l)"
          by (simp add: size_ok_def)
        then show ?thesis using False short old ne by (auto simp: onLine_def Let_def)
      qed
    qed
  qed
qed

lemma foldl_onLine_size_ok:
  "(size_ok m ls (currentChunk (foldl (onLine rp ft m) chunker_init ls))
      \<or> currentChunk (foldl (onLine rp ft m) chunker_init ls) = [])
   \<and> (\<forall>c\<in>set (chunks (foldl (onLine rp ft m) chunker_init ls)).
         \<exists>b. content c = trim b \<and> size_ok m ls b)"
proof (induction ls rule: rev_induct)
  case Nil
  show ?case by (simp add: chunker_init_def)
next
  case (snoc l ls)
  from snoc have a: "size_ok m ls (currentChunk (foldl (onLine rp ft m) chunker_init ls))
      \<or> currentChunk (foldl (onLine rp ft m) chunker_init ls) = []"
    and b: "\<forall>c\<in>set (chunks (foldl (onLine rp ft m) chunker_init ls)).
         \<exists>b. content c = trim b \<and> size_ok m ls b"
    by blast+
  from onLine_size_ok [OF a b, of l rp ft] show ?case by simp
qed

lemma chunk_size_soft_bound:
  assumes "c \<in> set (processFileWithStreaming lines relativePath fileType maxChunkSize)"
  shows "int (length (content c)) \<le> maxChunkSize + 1
       \<or> (\<exists>l\<in>set lines. int (length l) > maxChunkSize \<and> content c = trim l)"
proof -
  let ?st = "foldl (onLine relativePath fileType maxChunkSize) chunker_init lines"
  from foldl_onLine_size_ok [of maxChunkSize lines relativePath fileType]
  have cur: "size_ok maxChunkSize lines (currentChunk ?st) \<or> currentChunk ?st = []"
    and old: "\<forall>c\<in>set (chunks ?st). \<exists>b. content c = trim b \<and> size_ok maxChunkSize lines b"
    by blast+
  from assms have "c \<in> set (chunks ?st)
      \<or> (trim (currentChunk ?st) \<noteq> [] \<and> content c = trim (currentChunk ?st))"
    by (auto simp: processFileWithStreaming_def onClose_def split: if_splits)
  then obtain b where b: "content c = trim b" "size_ok maxChunkSize lines b"
    using cur old by (auto simp: trim_def)
  from b(2) show ?thesis
  proof (unfold size_ok_def, elim disjE conjE)
    assume "int (length b) \<le> maxChunkSize + 1"
    then show ?thesis using length_trim_le [of b] b(1) by simp
  next
    assume "b \<in> set lines" "maxChunkSize < int (length b)"
    then show ?thesis using b(1) by blast
  qed
qed

section \<open>PatternMatcher: \<^verbatim>\<open>matchesPattern\<close>\<close>

text \<open>\<^verbatim>\<open>s.startsWith(p)\<close> and \<^verbatim>\<open>s.endsWith(p)\<close>\<close>

definition startsWith :: "string \<Rightarrow> string \<Rightarrow> bool" where
  "startsWith s p = (take (length p) s = p)"

definition endsWith :: "string \<Rightarrow> string \<Rightarrow> bool" where
  "endsWith s p = (length p \<le> length s \<and> drop (length s - length p) s = p)"

text \<open>
  \<^verbatim>\<open>s.replace(/p/g, r)\<close> for a pattern that matches the literal string \<open>p\<close>: every
  occurrence from left to right, without overlap.
\<close>

fun replaceAll :: "string \<Rightarrow> string \<Rightarrow> string \<Rightarrow> string" where
  "replaceAll p r [] = []"
| "replaceAll p r (c # cs) =
     (if p \<noteq> [] \<and> startsWith (c # cs) p then r @ replaceAll p r (drop (length p - 1) cs)
      else c # replaceAll p r cs)"

text \<open>The characters of the class \<^verbatim>\<open>[.*+?^${}()|[\]\\]\<close>.\<close>

definition regex_special :: "char \<Rightarrow> bool" where
  "regex_special c = (c \<in> set ''.*+?^${}()|[]'' \<or> c = CHR 0x5C)"

text \<open>\<^verbatim>\<open>pattern.replace(/[.*+?^${}()|[\]\\]/g, '\\$&')\<close>: a backslash before each of them.\<close>

definition escapeRegex :: "string \<Rightarrow> string" where
  "escapeRegex s = concat (map (\<lambda>c. if regex_special c then [CHR 0x5C, c] else [c]) s)"

text \<open>
  The regular expressions that the pipeline of \<^verbatim>\<open>matchesPattern\<close> can build are
  sequences of three atoms: an escaped or plain character, \<^verbatim>\<open>.\<close> and \<^verbatim>\<open>.*\<close>.
  Without the \<^verbatim>\<open>s\<close> flag, \<^verbatim>\<open>.\<close> matches any character but a line terminator.
\<close>

datatype atom = Lit char | AnyChar | AnyStar

fun parseRegex :: "string \<Rightarrow> atom list" where
  "parseRegex [] = []"
| "parseRegex [c] = (if c = CHR ''.'' then [AnyChar] else [Lit c])"
| "parseRegex (c # d # ds) =
     (if c = CHR 0x5C then Lit d # parseRegex ds
      else if c = CHR ''.'' \<and> d = CHR ''*'' then AnyStar # parseRegex ds
      else if c = CHR ''.'' then AnyChar # parseRegex (d # ds)
      else Lit c # parseRegex (d # ds))"

definition line_terminator :: "char \<Rightarrow> bool" where
  "line_terminator c = (c = CHR 0x0A \<or> c = CHR 0x0D)"

text \<open>\<^verbatim>\<open>new RegExp('^' + re + '$').test(s)\<close>\<close>

fun regexTest :: "atom list \<Rightarrow> string \<Rightarrow> bool" where
  "regexTest [] s = (s = [])"
| "regexTest (Lit c # as) [] = False"
| "regexTest (Lit c # as) (x # xs) = (x = c \<and> regexTest as xs)"
| "regexTest (AnyChar # as) [] = False"
| "regexTest (AnyChar # as) (x # xs) = (\<not> line_terminator x \<and> regexTest as xs)"
| "regexTest (AnyStar # as) [] = regexTest as []"
| "regexTest (AnyStar # as) (x # xs) =
     (regexTest as (x # xs) \<or> (\<not> line_terminator x \<and> regexTest (AnyStar # as) xs))"

text \<open>
  The three shapes of a pattern, in the order the source tests them. A trailing backslash
  or a dangling quantifier cannot reach \<^const>\<open>parseRegex\<close>: \<^const>\<open>escapeRegex\<close> pairs every
  backslash and every special character with an escaping backslash, and the three
  replacements only rewrite the escaped \<^verbatim>\<open>*\<close> and \<^verbatim>\<open>?\<close>.
\<close>

definition matchesPattern :: "string \<Rightarrow> string \<Rightarrow> bool" where
  "matchesPattern filePath pattern =
    (if endsWith pattern ''/**'' then
       (let base = take (length pattern - 3) pattern
        in filePath = base \<or> startsWith filePath (base @ ''/''))
     else if startsWith pattern ''*.'' then
       (let extension = drop 1 pattern in endsWith filePath extension)
     else
       (let escaped =
              replaceAll [CHR 0x5C, CHR ''?''] ''.''
                (replaceAll [CHR 0x5C, CHR ''*''] ''.*''
                  (replaceAll [CHR 0x5C, CHR ''*'', CHR 0x5C, CHR ''*''] ''.*''
                    (escapeRegex pattern)))
        in regexTest (parseRegex escaped) filePath))"

text \<open>The glob shape on some inputs: an exact name, \<^verbatim>\<open>?\<close>, \<^verbatim>\<open>*\<close>, and an escaped \<^verbatim>\<open>+\<close>.\<close>

lemma matchesPattern_glob_examples:
  "matchesPattern ''node_modules'' ''node_modules''"
  "\<not> matchesPattern ''a/node_modules'' ''node_modules''"
  "matchesPattern ''src/a.log'' ''s?c/*.l*g''"
  "matchesPattern ''a+b'' ''a+b''"
  "\<not> matchesPattern ''aab'' ''a+b''"
  "matchesPattern ''Dockerfile'' ''Docker**''"
  by code_simp+

text \<open>The two string tests are the prefix and suffix orders of the library.\<close>

lemma startsWith_prefix: "startsWith s p \<longleftrightarrow> prefix p s"
  by (auto simp: startsWith_def prefix_def) (metis append_take_drop_id)

lemma endsWith_suffix: "endsWith s p \<longleftrightarrow> suffix p s"
proof
  assume "endsWith s p"
  then have "s = take (length s - length p) s @ p"
    by (metis append_take_drop_id endsWith_def)
  then show "suffix p s" by (metis suffixI)
next
  assume "suffix p s"
  then obtain q where "s = q @ p" by (auto simp: suffix_def)
  then show "endsWith s p" by (simp add: endsWith_def)
qed

text \<open>
  C4 (as amended). A pattern \<open>dir/**\<close> matches a relative path iff the path is \<open>dir\<close> or
  starts with \<open>dir/\<close>. A pattern \<open>*.ext\<close> that does not itself end in \<open>/**\<close> matches
  iff the path ends with \<open>.ext\<close>, compared character by character (so case-sensitively).
  The examples of the specification hold.
\<close>

theorem matchesPattern_shortcuts:
  "(matchesPattern path (dir @ ''/**'') \<longleftrightarrow> path = dir \<or> prefix (dir @ ''/'') path)
   \<and> (\<not> suffix ''/**'' (''*.'' @ ext) \<longrightarrow>
        (matchesPattern path (''*.'' @ ext) \<longleftrightarrow> suffix (''.'' @ ext) path))
   \<and> matchesPattern ''node_modules'' ''node_modules/**''
   \<and> matchesPattern ''node_modules/foo/bar.js'' ''node_modules/**''
   \<and> \<not> matchesPattern ''my_node_modules/x'' ''node_modules/**''
   \<and> matchesPattern ''a/b/c.py'' ''*.py''
   \<and> \<not> matchesPattern ''a/b/c.pyc'' ''*.py''"
proof -
  have dir: "matchesPattern path (dir @ ''/**'') \<longleftrightarrow> path = dir \<or> prefix (dir @ ''/'') path"
    by (simp add: matchesPattern_def endsWith_def startsWith_prefix)
  have ext: "matchesPattern path (''*.'' @ ext) \<longleftrightarrow> suffix (''.'' @ ext) path"
    if "\<not> suffix ''/**'' (''*.'' @ ext)"
    using that by (simp add: matchesPattern_def endsWith_suffix startsWith_def)
  have examples: "matchesPattern ''node_modules'' ''node_modules/**''"
    "matchesPattern ''node_modules/foo/bar.js'' ''node_modules/**''"
    "\<not> matchesPattern ''my_node_modules/x'' ''node_modules/**''"
    "matchesPattern ''a/b/c.py'' ''*.py''"
    "\<not> matchesPattern ''a/b/c.pyc'' ''*.py''"
    by (simp_all add: matchesPattern_def endsWith_def startsWith_def)
  from dir ext examples show ?thesis by blast
qed

theorem matchesPattern_shortcuts_witness:
  "\<not> suffix ''/**'' (''*.'' @ ''js'')
   \<and> (matchesPattern ''src/app.js'' (''*.'' @ ''js'') \<longleftrightarrow> suffix (''.'' @ ''js'') ''src/app.js'')
   \<and> suffix (''.'' @ ''js'') ''src/app.js''
   \<and> (matchesPattern ''dist/x'' (''dist'' @ ''/**'') \<longleftrightarrow> ''dist/x'' = ''dist'' \<or> prefix (''dist'' @ ''/'') ''dist/x'')
   \<and> prefix (''dist'' @ ''/'') ''dist/x''"
  using matchesPattern_shortcuts [of "''dist/x''" "''dist''" "''js''"]
    matchesPattern_shortcuts [of "''src/app.js''" "''dist''" "''js''"]
  by (simp add: suffix_to_prefix)

text \<open>
  The claim as stated fails for a pattern of both shapes: \<open>*.d/**\<close> starts with \<open>*.\<close>, and
  the path \<open>x.d/**\<close> ends with the extension suffix \<open>.d/**\<close>, but the directory shape is
  tested first and does not match.
\<close>

theorem matchesPattern_extension_counterexample:
  "startsWith ''*.d/**'' ''*.'' \<and> endsWith ''x.d/**'' (drop 1 ''*.d/**'')
   \<and> \<not> matchesPattern ''x.d/**'' ''*.d/**''"
  by (simp add: matchesPattern_def endsWith_def startsWith_def)

section \<open>BatchIngestor: \<^verbatim>\<open>storeChunksInBatches\<close>\<close>

text \<open>A thrown value: an \<^verbatim>\<open>Error\<close> object with its message, or any other value with
  its \<^verbatim>\<open>String(...)\<close> rendering.\<close>

datatype js_error = Error string | Thrown string

text \<open>The decimal rendering of a non-negative integer in a template literal.\<close>

fun string_of_nat :: "nat \<Rightarrow> string" where
  "string_of_nat n =
     (if n < 10 then [char_of (48 + n)]
      else string_of_nat (n div 10) @ [char_of (48 + n mod 10)])"

declare string_of_nat.simps [simp del]


definition nat_of_digits :: "string \<Rightarrow> nat" where
  "nat_of_digits s = foldl (\<lambda>a c. 10 * a + (of_char c - 48)) 0 s"

lemma nat_of_digits_snoc: "nat_of_digits (s @ [c]) = 10 * nat_of_digits s + (of_char c - 48)"
  by (simp add: nat_of_digits_def)

lemma of_char_digit: "d < 10 \<Longrightarrow> (of_char (char_of (48 + d)) :: nat) = 48 + d"
  by simp

lemma nat_of_digits_string_of_nat: "nat_of_digits (string_of_nat n) = n"
proof (induction n rule: string_of_nat.induct)
  case (1 n)
  show ?case
  proof (cases "n < 10")
    case True
    then have "nat_of_digits [char_of (48 + n)] = n"
      by (simp add: nat_of_digits_def)
    then show ?thesis using True by (subst string_of_nat.simps) simp
  next
    case False
    have d: "(of_char (char_of (48 + n mod 10)) :: nat) = 48 + n mod 10"
      by (rule of_char_digit) simp
    have "nat_of_digits (string_of_nat (n div 10) @ [char_of (48 + n mod 10)])
            = 10 * (n div 10) + n mod 10"
      using 1 False by (simp only: nat_of_digits_snoc d) simp
    then show ?thesis using False by (subst string_of_nat.simps) simp
  qed
qed

lemma string_of_nat_inject: "string_of_nat m = string_of_nat n \<longleftrightarrow> m = n"
  by (metis nat_of_digits_string_of_nat)


lemma string_of_nat_nonempty: "string_of_nat n \<noteq> []"
  by (subst string_of_nat.simps) simp

text \<open>A chunk as \<^verbatim>\<open>indexLocalProject\<close> hands it to the ingestor: the chunker's fields and
  the fields of the indexing run.\<close>

record indexed_chunk = chunk +
  project_id :: string
  project_name :: string
  project_path :: string
  source_type :: string
  indexed_at :: string

record metadata =
  md_file_path :: string
  md_project_id :: string
  md_project_name :: string
  md_project_path :: string
  md_source_type :: string
  md_file_type :: string
  md_chunk_index :: nat
  md_indexed_at :: string

definition metadata_of :: "indexed_chunk \<Rightarrow> metadata" where
  "metadata_of c =
     \<lparr>md_file_path = file_path c, md_project_id = project_id c,
      md_project_name = project_name c, md_project_path = project_path c,
      md_source_type = source_type c, md_file_type = file_type c,
      md_chunk_index = chunk_index c, md_indexed_at = indexed_at c\<rparr>"

text \<open>The argument of one \<^verbatim>\<open>collection.add\<close> call: three parallel arrays.\<close>

record add_request =
  ids :: "string list"
  documents :: "string list"
  metadatas :: "metadata list"

text \<open>The body of the loop before the write, for the batch at offset \<open>i\<close>.\<close>

definition batch_request :: "indexed_chunk list \<Rightarrow> string \<Rightarrow> nat \<Rightarrow> nat \<Rightarrow> add_request" where
  "batch_request cs projectId batchSize i =
     (let batch = take batchSize (drop i cs) in
      \<lparr>ids = map (\<lambda>idx. projectId @ ''_chunk_'' @ string_of_nat (i + idx)) [0..<length batch],
       documents = map content batch,
       metadatas = map metadata_of batch\<rparr>)"

text \<open>
  The vector store is an external service. Its \<^verbatim>\<open>add\<close> is a parameter: from the state of
  the store and a request it gives the next state and, when the call throws, the error.
  The loop \<^verbatim>\<open>for (let i = 0; i < chunks.length; i += batchSize)\<close> does not end when
  \<^verbatim>\<open>batchSize\<close> is 0 and there is a chunk, so the result is an option: \<^const>\<open>None\<close> is
  a run that never returns. A returned pair holds the store and the error thrown, if any.
\<close>

partial_function (option) storeLoop ::
  "('s \<Rightarrow> add_request \<Rightarrow> 's \<times> js_error option) \<Rightarrow> indexed_chunk list \<Rightarrow> string \<Rightarrow> nat
     \<Rightarrow> nat \<Rightarrow> 's \<Rightarrow> ('s \<times> js_error option) option" where
  "storeLoop add cs projectId batchSize i st =
     (if i < length cs then
        (case add st (batch_request cs projectId batchSize i) of
           (st', Some e) \<Rightarrow> Some (st', Some e)
         | (st', None) \<Rightarrow> storeLoop add cs projectId batchSize (i + batchSize) st')
      else Some (st, None))"

definition storeChunksInBatches ::
  "('s \<Rightarrow> add_request \<Rightarrow> 's \<times> js_error option) \<Rightarrow> 's \<Rightarrow> indexed_chunk list \<Rightarrow> string \<Rightarrow> nat
     \<Rightarrow> ('s \<times> js_error option) option" where
  "storeChunksInBatches add st cs projectId batchSize =
     storeLoop add cs projectId batchSize 0 st"

text \<open>Writes in sequence, stopping at the first that throws.\<close>

fun writes :: "('s \<Rightarrow> add_request \<Rightarrow> 's \<times> js_error option) \<Rightarrow> 's \<Rightarrow> add_request list
     \<Rightarrow> 's \<times> js_error option" where
  "writes add st [] = (st, None)"
| "writes add st (r # rs) =
     (case add st r of (st', Some e) \<Rightarrow> (st', Some e) | (st', None) \<Rightarrow> writes add st' rs)"

text \<open>The requests of a run: one per offset \<open>0, batchSize, 2 * batchSize, ...\<close> below the
  number of cs.\<close>

definition batches :: "indexed_chunk list \<Rightarrow> string \<Rightarrow> nat \<Rightarrow> add_request list" where
  "batches cs projectId batchSize =
     map (\<lambda>k. batch_request cs projectId batchSize (k * batchSize))
       [0..<(length cs + batchSize - 1) div batchSize]"

lemma writes_append:
  "writes add st (xs @ ys) =
     (case writes add st xs of (st', Some e) \<Rightarrow> (st', Some e) | (st', None) \<Rightarrow> writes add st' ys)"
  by (induction xs arbitrary: st) (auto split: prod.splits option.splits)

lemma offset_past_end: "0 < (bs::nat) \<Longrightarrow> (L + bs - 1) div bs \<le> j \<Longrightarrow> \<not> j * bs < L"
proof -
  assume b: "0 < bs" and h: "(L + bs - 1) div bs \<le> j"
  then have "(L + bs - 1) div bs < Suc j" by simp
  then have "L + bs - 1 < Suc j * bs" using b by (simp only: div_less_iff_less_mult)
  then show ?thesis using b by simp
qed

lemma offset_in_range: "0 < (bs::nat) \<Longrightarrow> j < (L + bs - 1) div bs \<Longrightarrow> j * bs < L"
proof -
  assume b: "0 < bs" and h: "j < (L + bs - 1) div bs"
  then have "Suc j \<le> (L + bs - 1) div bs" by simp
  then have "Suc j * bs \<le> L + bs - 1" using b by (simp only: less_eq_div_iff_mult_less_eq)
  then show ?thesis using b by simp
qed

lemma storeLoop_writes:
  assumes "0 < bs"
  shows "storeLoop add cs pid bs (j * bs) st
           = Some (writes add st (map (\<lambda>k. batch_request cs pid bs (k * bs))
                                   [j..<(length cs + bs - 1) div bs]))"
proof (induction "(length cs + bs - 1) div bs - j" arbitrary: j st)
  case 0
  then have le: "(length cs + bs - 1) div bs \<le> j" by simp
  then have nl: "\<not> j * bs < length cs" using assms by (rule offset_past_end [rotated])
  have upt: "[j..<(length cs + bs - 1) div bs] = []"
    using le by simp
  show ?case
    by (subst storeLoop.simps) (simp only: nl if_False upt list.map writes.simps)
next
  case (Suc n)
  then have lt: "j < (length cs + bs - 1) div bs" by simp
  then have jl: "j * bs < length cs" using assms by (rule offset_in_range [rotated])
  have upt: "[j..<(length cs + bs - 1) div bs] = j # [Suc j..<(length cs + bs - 1) div bs]"
    using lt by (simp add: upt_conv_Cons)
  have "n = (length cs + bs - 1) div bs - Suc j" using Suc.hyps(2) by simp
  then have ih: "\<And>st'. storeLoop add cs pid bs (Suc j * bs) st'
           = Some (writes add st' (map (\<lambda>k. batch_request cs pid bs (k * bs))
                                   [Suc j..<(length cs + bs - 1) div bs]))"
    by (rule Suc.hyps(1))
  have step: "j * bs + bs = Suc j * bs" by simp
  show ?case
    apply (subst storeLoop.simps)
    apply (simp only: jl if_True step ih upt list.map writes.simps)
    apply (simp split: prod.splits option.splits)
    done
qed

lemma storeChunksInBatches_writes:
  "0 < bs \<Longrightarrow> storeChunksInBatches add st cs pid bs = Some (writes add st (batches cs pid bs))"
  using storeLoop_writes [of bs add cs pid 0 st]
  by (simp add: storeChunksInBatches_def batches_def)

text \<open>A store that keeps, in order, every request written to it, and never fails.\<close>

definition recording_add :: "add_request list \<Rightarrow> add_request \<Rightarrow> add_request list \<times> js_error option" where
  "recording_add written r = (written @ [r], None)"

lemma writes_recording: "writes recording_add written rs = (written @ rs, None)"
  by (induction rs arbitrary: written) (simp_all add: recording_add_def)

lemma concat_slices_take:
  "concat (map (\<lambda>k. take bs (drop (k * bs) xs)) [0..<n]) = take (n * bs) xs"
proof (induction n)
  case 0
  show ?case by simp
next
  case (Suc n)
  have "take (n * bs) xs @ take bs (drop (n * bs) xs) = take (n * bs + bs) xs"
    by (simp add: take_add)
  then show ?case using Suc by (simp add: add.commute)
qed

lemma concat_slices:
  assumes "0 < bs"
  shows "concat (map (\<lambda>k. map f (take bs (drop (k * bs) xs))) [0..<(length xs + bs - 1) div bs])
           = map f xs"
proof -
  let ?n = "(length xs + bs - 1) div bs"
  have "\<not> ?n * bs < length xs" using assms by (rule offset_past_end) simp
  then have all: "take (?n * bs) xs = xs" by simp
  have "concat (map (\<lambda>k. map f (take bs (drop (k * bs) xs))) [0..<?n])
          = map f (concat (map (\<lambda>k. take bs (drop (k * bs) xs)) [0..<?n]))"
    by (simp add: map_concat comp_def)
  then show ?thesis by (simp only: concat_slices_take all)
qed

lemma batch_request_ids:
  "ids (batch_request cs pid bs i)
     = map (\<lambda>n. pid @ ''_chunk_'' @ string_of_nat n) (take bs (drop i [0..<length cs]))"
  by (rule nth_equalityI) (auto simp: batch_request_def Let_def)

lemma batch_request_documents:
  "documents (batch_request cs pid bs i) = map content (take bs (drop i cs))"
  by (simp add: batch_request_def Let_def)

lemma batch_request_metadatas:
  "metadatas (batch_request cs pid bs i) = map metadata_of (take bs (drop i cs))"
  by (simp add: batch_request_def Let_def)

lemma batches_ids:
  assumes "0 < bs"
  shows "concat (map ids (batches cs pid bs))
           = map (\<lambda>n. pid @ ''_chunk_'' @ string_of_nat n) [0..<length cs]"
  using concat_slices [OF assms, of "\<lambda>n. pid @ ''_chunk_'' @ string_of_nat n" "[0..<length cs]"]
  by (simp add: batches_def comp_def batch_request_ids)

lemma batches_documents:
  assumes "0 < bs"
  shows "concat (map documents (batches cs pid bs)) = map content cs"
  using concat_slices [OF assms, of content cs]
  by (simp add: batches_def comp_def batch_request_documents)

lemma batches_metadatas:
  assumes "0 < bs"
  shows "concat (map metadatas (batches cs pid bs)) = map metadata_of cs"
  using concat_slices [OF assms, of metadata_of cs]
  by (simp add: batches_def comp_def batch_request_metadatas)

lemma batches_parallel:
  assumes "0 < bs"
  shows "list_all (\<lambda>r. length (ids r) = length (documents r)
                     \<and> length (metadatas r) = length (documents r)
                     \<and> 0 < length (documents r) \<and> length (documents r) \<le> bs)
           (batches cs pid bs)"
proof -
  have "\<not> length cs \<le> k * bs" if "k < (length cs + bs - 1) div bs" for k
    using offset_in_range [OF assms that] by simp
  then show ?thesis using assms
    by (auto simp add: batches_def list_all_iff batch_request_def Let_def)
qed

lemma batches_ids_only_positions:
  "length cs' = length cs \<Longrightarrow> map ids (batches cs' pid bs) = map ids (batches cs pid bs)"
  by (simp add: batches_def batch_request_def Let_def)

lemma batches_ids_distinct:
  assumes "0 < bs"
  shows "distinct (concat (map ids (batches cs pid bs)))"
proof -
  have "inj (\<lambda>n. pid @ ''_chunk_'' @ string_of_nat n)"
    by (rule injI) (simp add: string_of_nat_inject)
  then have "distinct (map (\<lambda>n. pid @ ''_chunk_'' @ string_of_nat n) [0..<length cs])"
    by (simp add: distinct_map inj_on_def)
  then show ?thesis by (simp only: batches_ids [OF assms])
qed

text \<open>
  C5. A run of the ingestor with batch size 100 on a chunk list of length \<open>L\<close>, against a
  store that records every request, ends without error and has written exactly the
  requests \<^const>\<open>batches\<close>, in order: \<open>(L + 99) div 100\<close> of them, the \<open>k\<close>-th built from the
  slice of at most 100 chunks at offset \<open>100 * k\<close>. Their ids, in write order, are the
  project id followed by \<^verbatim>\<open>_chunk_\<close> and the decimal numerals of \<open>0\<close>, ..., \<open>L - 1\<close>: the
  number is the position in the whole list, the ids are pairwise different, and no field
  of the chunk enters them. Their documents, in write order, are the contents of the
  chunks in list order, their metadata the eight metadata fields of the chunks in list
  order, and in every request the three arrays have the same length, between 1 and 100:
  position \<open>j\<close> of each describes the same chunk. Changing the \<^verbatim>\<open>chunk_index\<close> of the
  chunks in any way changes no id.
\<close>

theorem batch_ids_and_order:
  "storeChunksInBatches recording_add [] cs projectId 100 = Some (batches cs projectId 100, None)
   \<and> length (batches cs projectId 100) = (length cs + 99) div 100
   \<and> concat (map ids (batches cs projectId 100))
       = map (\<lambda>n. projectId @ ''_chunk_'' @ string_of_nat n) [0..<length cs]
   \<and> distinct (concat (map ids (batches cs projectId 100)))
   \<and> concat (map documents (batches cs projectId 100)) = map content cs
   \<and> concat (map metadatas (batches cs projectId 100))
       = map (\<lambda>c. \<lparr>md_file_path = file_path c, md_project_id = project_id c,
                    md_project_name = project_name c, md_project_path = project_path c,
                    md_source_type = source_type c, md_file_type = file_type c,
                    md_chunk_index = chunk_index c, md_indexed_at = indexed_at c\<rparr>) cs
   \<and> list_all (\<lambda>r. length (ids r) = length (documents r)
                  \<and> length (metadatas r) = length (documents r)
                  \<and> 0 < length (documents r) \<and> length (documents r) \<le> 100)
        (batches cs projectId 100)
   \<and> map ids (batches (map (\<lambda>c. c\<lparr>chunk_index := f c\<rparr>) cs) projectId 100)
       = map ids (batches cs projectId 100)"
proof -
  have pos: "0 < (100::nat)" by simp
  have "storeChunksInBatches recording_add [] cs projectId 100
          = Some (batches cs projectId 100, None)"
    by (simp add: storeChunksInBatches_writes writes_recording)
  moreover have "length (batches cs projectId 100) = (length cs + 99) div 100"
    by (simp add: batches_def)
  moreover have "map ids (batches (map (\<lambda>c. c\<lparr>chunk_index := f c\<rparr>) cs) projectId 100)
                   = map ids (batches cs projectId 100)"
    by (rule batches_ids_only_positions) simp
  moreover have "concat (map metadatas (batches cs projectId 100))
       = map (\<lambda>c. \<lparr>md_file_path = file_path c, md_project_id = project_id c,
                    md_project_name = project_name c, md_project_path = project_path c,
                    md_source_type = source_type c, md_file_type = file_type c,
                    md_chunk_index = chunk_index c, md_indexed_at = indexed_at c\<rparr>) cs"
    using batches_metadatas [OF pos, of cs projectId] by (simp add: metadata_of_def [abs_def])
  ultimately show ?thesis
    using batches_ids [OF pos] batches_ids_distinct [OF pos] batches_documents [OF pos]
      batches_parallel [OF pos]
    by blast
qed

text \<open>
  Three chunks of two files (the per-file indices are 0, 1, 0) are written as one batch
  with the ids numbered 0, 1, 2; of 101 chunks, the last is written alone, in a second
  batch, under the id numbered 100.
\<close>

definition three_chunks :: "indexed_chunk list" where
  "three_chunks =
     [\<lparr>content = ''alpha'', file_path = ''a.py'', file_type = ''py'', chunk_index = 0,
       project_id = ''my_app'', project_name = ''My App'', project_path = ''/p'',
       source_type = ''local'', indexed_at = ''t0''\<rparr>,
      \<lparr>content = ''beta'', file_path = ''a.py'', file_type = ''py'', chunk_index = 1,
       project_id = ''my_app'', project_name = ''My App'', project_path = ''/p'',
       source_type = ''local'', indexed_at = ''t1''\<rparr>,
      \<lparr>content = ''gamma'', file_path = ''b.md'', file_type = ''md'', chunk_index = 0,
       project_id = ''my_app'', project_name = ''My App'', project_path = ''/p'',
       source_type = ''local'', indexed_at = ''t2''\<rparr>]"

theorem batch_ids_and_order_witness:
  "storeChunksInBatches recording_add [] three_chunks ''my_app'' 100
     = Some ([\<lparr>ids = [''my_app_chunk_0'', ''my_app_chunk_1'', ''my_app_chunk_2''],
               documents = [''alpha'', ''beta'', ''gamma''],
               metadatas =
                 [\<lparr>md_file_path = ''a.py'', md_project_id = ''my_app'',
                   md_project_name = ''My App'', md_project_path = ''/p'',
                   md_source_type = ''local'', md_file_type = ''py'', md_chunk_index = 0,
                   md_indexed_at = ''t0''\<rparr>,
                  \<lparr>md_file_path = ''a.py'', md_project_id = ''my_app'',
                   md_project_name = ''My App'', md_project_path = ''/p'',
                   md_source_type = ''local'', md_file_type = ''py'', md_chunk_index = 1,
                   md_indexed_at = ''t1''\<rparr>,
                  \<lparr>md_file_path = ''b.md'', md_project_id = ''my_app'',
                   md_project_name = ''My App'', md_project_path = ''/p'',
                   md_source_type = ''local'', md_file_type = ''md'', md_chunk_index = 0,
                   md_indexed_at = ''t2''\<rparr>]\<rparr>], None)
   \<and> storeChunksInBatches recording_add [] (replicate 101 (hd three_chunks)) ''my_app'' 100
     = Some (batches (replicate 101 (hd three_chunks)) ''my_app'' 100, None)
   \<and> length (batches (replicate 101 (hd three_chunks)) ''my_app'' 100) = 2
   \<and> length (ids (batches (replicate 101 (hd three_chunks)) ''my_app'' 100 ! 0)) = 100
   \<and> ids (batches (replicate 101 (hd three_chunks)) ''my_app'' 100 ! 1) = [''my_app_chunk_100'']
   \<and> documents (batches (replicate 101 (hd three_chunks)) ''my_app'' 100 ! 1) = [''alpha'']"
proof -
  have b3: "batches three_chunks ''my_app'' 100
     = [\<lparr>ids = [''my_app_chunk_0'', ''my_app_chunk_1'', ''my_app_chunk_2''],
               documents = [''alpha'', ''beta'', ''gamma''],
               metadatas =
                 [\<lparr>md_file_path = ''a.py'', md_project_id = ''my_app'',
                   md_project_name = ''My App'', md_project_path = ''/p'',
                   md_source_type = ''local'', md_file_type = ''py'', md_chunk_index = 0,
                   md_indexed_at = ''t0''\<rparr>,
                  \<lparr>md_file_path = ''a.py'', md_project_id = ''my_app'',
                   md_project_name = ''My App'', md_project_path = ''/p'',
                   md_source_type = ''local'', md_file_type = ''py'', md_chunk_index = 1,
                   md_indexed_at = ''t1''\<rparr>,
                  \<lparr>md_file_path = ''b.md'', md_project_id = ''my_app'',
                   md_project_name = ''My App'', md_project_path = ''/p'',
                   md_source_type = ''local'', md_file_type = ''md'', md_chunk_index = 0,
                   md_indexed_at = ''t2''\<rparr>]\<rparr>]"
    by code_simp
  have s100: "string_of_nat 100 = ''100''" by code_simp
  let ?cs = "replicate 101 (hd three_chunks)"
  have len: "length (batches ?cs ''my_app'' 100) = 2"
    by (simp add: batches_def)
  have second: "batches ?cs ''my_app'' 100 ! 1 = batch_request ?cs ''my_app'' 100 100"
    by (simp add: batches_def)
  have first: "batches ?cs ''my_app'' 100 ! 0 = batch_request ?cs ''my_app'' 100 0"
    by (simp add: batches_def)
  have i0: "length (ids (batches ?cs ''my_app'' 100 ! 0)) = 100"
    unfolding first by (simp add: batch_request_def Let_def)
  have i1: "ids (batches ?cs ''my_app'' 100 ! 1) = [''my_app_chunk_100'']"
    unfolding second by (simp add: batch_request_def Let_def s100)
  have d1: "documents (batches ?cs ''my_app'' 100 ! 1) = [''alpha'']"
    unfolding second by (simp add: batch_request_def Let_def three_chunks_def)
  have "storeChunksInBatches recording_add [] three_chunks ''my_app'' 100
          = Some (batches three_chunks ''my_app'' 100, None)"
    using batch_ids_and_order [of three_chunks "''my_app''"] by (rule conjunct1)
  then have r3: "storeChunksInBatches recording_add [] three_chunks ''my_app'' 100
     = Some ([\<lparr>ids = [''my_app_chunk_0'', ''my_app_chunk_1'', ''my_app_chunk_2''],
               documents = [''alpha'', ''beta'', ''gamma''],
               metadatas =
                 [\<lparr>md_file_path = ''a.py'', md_project_id = ''my_app'',
                   md_project_name = ''My App'', md_project_path = ''/p'',
                   md_source_type = ''local'', md_file_type = ''py'', md_chunk_index = 0,
                   md_indexed_at = ''t0''\<rparr>,
                  \<lparr>md_file_path = ''a.py'', md_project_id = ''my_app'',
                   md_project_name = ''My App'', md_project_path = ''/p'',
                   md_source_type = ''local'', md_file_type = ''py'', md_chunk_index = 1,
                   md_indexed_at = ''t1''\<rparr>,
                  \<lparr>md_file_path = ''b.md'', md_project_id = ''my_app'',
                   md_project_name = ''My App'', md_project_path = ''/p'',
                   md_source_type = ''local'', md_file_type = ''md'', md_chunk_index = 0,
                   md_indexed_at = ''t2''\<rparr>]\<rparr>], None)"
    unfolding b3 .
  have r101: "storeChunksInBatches recording_add [] ?cs ''my_app'' 100
     = Some (batches ?cs ''my_app'' 100, None)"
    using batch_ids_and_order [of ?cs "''my_app''"] by (rule conjunct1)
  from r3 r101 len i0 i1 d1 show ?thesis by (intro conjI)
qed

section \<open>FileDiscoverer: \<^verbatim>\<open>getFilesToIndex\<close>\<close>

text \<open>
  The file system below the project root, as the traversal reads it: a directory entry
  that is not a directory carries what \<^verbatim>\<open>fs.stat\<close> and the line stream give for it (an
  error, or the lines), a directory carries what \<^verbatim>\<open>fs.readdir\<close> gives (an error, or its
  entries in enumeration order).
\<close>

datatype fs_entry =
    FileEntry string "js_error + string list"
  | DirEntry string "js_error + fs_entry list"

record found_file =
  full_path :: string
  relative_path :: string
  file_lines :: "js_error + string list"

text \<open>\<^verbatim>\<open>path.join(currentPath, name)\<close> and \<^verbatim>\<open>path.relative(dirPath, fullPath)\<close> for a
  normalised root path and POSIX separators.\<close>

definition path_join :: "string \<Rightarrow> string \<Rightarrow> string" where
  "path_join currentPath name = currentPath @ ''/'' @ name"

definition relative_join :: "string \<Rightarrow> string \<Rightarrow> string" where
  "relative_join rel name = (if rel = [] then name else rel @ ''/'' @ name)"

text \<open>The body of the loop over the entries of a directory; \<open>rel\<close> is the directory's path
  relative to the root. A directory whose listing fails contributes nothing.\<close>

fun visit :: "string list \<Rightarrow> string list \<Rightarrow> string \<Rightarrow> string \<Rightarrow> fs_entry \<Rightarrow> found_file list" where
  "visit includePatterns excludePatterns currentPath rel (DirEntry name listing) =
     (let fullPath = path_join currentPath name;
          shouldExclude = list_ex (\<lambda>pattern. matchesPattern (relative_join rel name) pattern)
                            excludePatterns
      in if \<not> shouldExclude then
           (case listing of
              Inl e \<Rightarrow> []
            | Inr entries \<Rightarrow>
                concat (map (visit includePatterns excludePatterns fullPath
                               (relative_join rel name)) entries))
         else [])"
| "visit includePatterns excludePatterns currentPath rel (FileEntry name lines) =
     (let fullPath = path_join currentPath name;
          relativePath = relative_join rel name;
          shouldInclude = (length includePatterns = 0
             \<or> list_ex (\<lambda>pattern. matchesPattern relativePath pattern) includePatterns);
          shouldExclude = list_ex (\<lambda>pattern. matchesPattern relativePath pattern) excludePatterns
      in if shouldInclude \<and> \<not> shouldExclude
         then [\<lparr>full_path = fullPath, relative_path = relativePath, file_lines = lines\<rparr>]
         else [])"

definition getFilesToIndex ::
  "js_error + fs_entry list \<Rightarrow> string \<Rightarrow> string list \<Rightarrow> string list \<Rightarrow> found_file list" where
  "getFilesToIndex listing dirPath includePatterns excludePatterns =
     (case listing of
        Inl e \<Rightarrow> []
      | Inr entries \<Rightarrow> concat (map (visit includePatterns excludePatterns dirPath []) entries))"

section \<open>\<^verbatim>\<open>indexLocalProject\<close>\<close>

definition getDefaultIncludePatterns :: "string list" where
  "getDefaultIncludePatterns = [
    ''*.php'', ''*.phtml'', ''*.php3'', ''*.php4'', ''*.php5'', ''*.php7'', ''*.php8'',
    ''*.py'', ''*.pyw'', ''*.pyi'', ''*.pyc'', ''*.pyo'', ''*.js'', ''*.jsx'', ''*.mjs'',
    ''*.cjs'', ''*.ts'', ''*.tsx'', ''*.mts'', ''*.cts'', ''*.java'', ''*.jav'', ''*.jsp'',
    ''*.jspx'', ''*.cpp'', ''*.cxx'', ''*.cc'', ''*.c++'', ''*.hpp'', ''*.hxx'', ''*.h++'',
    ''*.c'', ''*.h'', ''*.cs'', ''*.csx'', ''*.go'', ''*.gox'', ''*.rs'', ''*.rlib'',
    ''*.rb'', ''*.rbw'', ''*.rake'', ''*.gemspec'', ''*.swift'', ''*.swiftinterface'',
    ''*.kt'', ''*.kts'', ''*.scala'', ''*.sc'', ''*.clj'', ''*.cljs'', ''*.cljc'',
    ''*.edn'', ''*.hs'', ''*.lhs'', ''*.ml'', ''*.mli'', ''*.fs'', ''*.fsi'', ''*.fsx'',
    ''*.fsscript'', ''*.erl'', ''*.hrl'', ''*.ex'', ''*.exs'', ''*.lua'', ''*.luac'',
    ''*.r'', ''*.R'', ''*.Rmd'', ''*.rmd'', ''*.m'', ''*.mm'', ''*.M'', ''*.pl'', ''*.pm'',
    ''*.t'', ''*.pod'', ''*.sh'', ''*.bash'', ''*.zsh'', ''*.fish'', ''*.ps1'', ''*.psm1'',
    ''*.psd1'', ''*.sql'', ''*.psql'', ''*.mysql'', ''*.sqlite'', ''*.html'', ''*.htm'',
    ''*.xhtml'', ''*.xml'', ''*.svg'', ''*.vue'', ''*.svelte'', ''*.css'', ''*.scss'',
    ''*.sass'', ''*.less'', ''*.styl'', ''*.md'', ''*.markdown'', ''*.mdown'', ''*.mkdn'',
    ''*.mdx'', ''*.txt'', ''*.text'', ''*.rtf'', ''*.yml'', ''*.yaml'', ''*.json'',
    ''*.jsonc'', ''*.json5'', ''*.toml'', ''*.ini'', ''*.cfg'', ''*.conf'', ''*.config'',
    ''*.dockerfile'', ''*.Dockerfile'', ''*.tf'', ''*.tfvars'', ''*.proto'', ''*.thrift'',
    ''*.graphql'', ''*.gql'', ''*.asm'', ''*.s'', ''*.S'', ''*.dart'', ''*.dartx'',
    ''*.elm'', ''*.nim'', ''*.nims'', ''*.zig'', ''*.v'', ''*.vh'', ''*.sv'', ''*.svh'',
    ''*.tex'', ''*.ltx'', ''*.sty'', ''*.rst'', ''*.rest'', ''*.adoc'', ''*.asciidoc'',
    ''*.org'', ''*.org_archive'']"

definition getDefaultExcludePatterns :: "string list" where
  "getDefaultExcludePatterns = [
    ''node_modules'', ''node_modules/**'', ''.git'', ''.git/**'', ''dist'', ''dist/**'',
    ''build'', ''build/**'', ''out'', ''out/**'', ''coverage'', ''coverage/**'',
    ''__pycache__'', ''__pycache__/**'', ''venv'', ''venv/**'', ''.venv'', ''.venv/**'',
    ''.next'', ''.next/**'', ''target'', ''target/**'', ''.cache'', ''.cache/**'',
    ''*.log'', ''*.tmp'']"

text \<open>\<^verbatim>\<open>projectName.toLowerCase().replace(/[^a-z0-9]/g, '_')\<close>\<close>

definition toLowerCase_char :: "char \<Rightarrow> char" where
  "toLowerCase_char c =
     (let n = of_char c :: nat in
      if (65 \<le> n \<and> n \<le> 90) \<or> (192 \<le> n \<and> n \<le> 222 \<and> n \<noteq> 215) then char_of (n + 32) else c)"

definition sanitizeProjectId :: "string \<Rightarrow> string" where
  "sanitizeProjectId projectName =
     map (\<lambda>c. let n = of_char c :: nat in
               if (97 \<le> n \<and> n \<le> 122) \<or> (48 \<le> n \<and> n \<le> 57) then c else CHR ''_'')
       (map toLowerCase_char projectName)"

text \<open>
  What the operation reads from outside: the outcome of \<^verbatim>\<open>fs.stat(project_path)\<close> (an
  error, or whether the path is a directory), the error of \<^verbatim>\<open>getOrCreateCollection\<close> if
  it throws, the listing of the root directory, the store's \<^verbatim>\<open>add\<close>, the library's
  \<^verbatim>\<open>path.extname\<close>, the clock (the text of the \<open>n\<close>-th \<^verbatim>\<open>new Date().toISOString()\<close>) and
  the configured embedding provider.
\<close>

record 's index_env =
  root_stat :: "js_error + bool"
  collection_error :: "js_error option"
  root_listing :: "js_error + fs_entry list"
  store_add :: "'s \<Rightarrow> add_request \<Rightarrow> 's \<times> js_error option"
  extname :: "string \<Rightarrow> string"
  now :: "nat \<Rightarrow> string"
  embedding_provider :: string

record index_args =
  arg_project_path :: string
  arg_project_name :: string
  include_patterns :: "string list option"
  exclude_patterns :: "string list option"

text \<open>The body of the loop over the files: a file whose \<^verbatim>\<open>stat\<close> or stream fails is
  logged and skipped. The state is the chunk list and \<^verbatim>\<open>processedFiles\<close>.\<close>

definition index_file ::
  "'s index_env \<Rightarrow> string \<Rightarrow> string \<Rightarrow> string \<Rightarrow> indexed_chunk list \<times> nat \<Rightarrow> found_file
     \<Rightarrow> indexed_chunk list \<times> nat" where
  "index_file env projectPath projectName projectId acc f =
     (case acc of (cs, processedFiles) \<Rightarrow>
      (case file_lines f of
         Inl e \<Rightarrow> (cs, processedFiles)
       | Inr lines \<Rightarrow>
          (let relativePath = relative_path f;
               fileExtension = (let e = drop 1 (extname env (full_path f))
                                in if e = [] then ''txt'' else e);
               fileChunks = processFileWithStreaming lines relativePath fileExtension 1500
           in ((if length fileChunks > 0
                then cs @ map (\<lambda>(k, c).
                       \<lparr>content = content c, file_path = file_path c, file_type = file_type c,
                        chunk_index = chunk_index c, project_id = projectId,
                        project_name = projectName, project_path = projectPath,
                        source_type = ''local'', indexed_at = now env (length cs + k)\<rparr>)
                     (enumerate 0 fileChunks)
                else cs), processedFiles + 1))))"

definition collect_chunks :: "'s index_env \<Rightarrow> index_args \<Rightarrow> indexed_chunk list \<times> nat" where
  "collect_chunks env args =
     (let include = (case include_patterns args of None \<Rightarrow> getDefaultIncludePatterns | Some ps \<Rightarrow> ps);
          exclude = (case exclude_patterns args of None \<Rightarrow> getDefaultExcludePatterns | Some ps \<Rightarrow> ps);
          files = getFilesToIndex (root_listing env) (arg_project_path args) include exclude
      in foldl (index_file env (arg_project_path args) (arg_project_name args)
                  (sanitizeProjectId (arg_project_name args))) ([], 0) files)"

definition success_text :: "'s index_env \<Rightarrow> index_args \<Rightarrow> nat \<Rightarrow> nat \<Rightarrow> string" where
  "success_text env args processedFiles n =
     ''Successfully indexed local project: '' @ arg_project_name args @ newline @
     ''Project ID: '' @ sanitizeProjectId (arg_project_name args) @ newline @
     ''Project Path: '' @ arg_project_path args @ newline @
     ''Files processed: '' @ string_of_nat processedFiles @ newline @
     ''Chunks created: '' @ string_of_nat n @ newline @
     ''Embedding provider: '' @ embedding_provider env"

text \<open>
  The result is the store after the call and either the error the call throws or the
  text of its response; \<^const>\<open>None\<close> only if the ingestor does not return.
\<close>

definition indexLocalProject ::
  "'s index_env \<Rightarrow> 's \<Rightarrow> index_args \<Rightarrow> ('s \<times> (js_error + string)) option" where
  "indexLocalProject env st args =
     (if root_stat env \<noteq> Inr True
      then Some (st, Inl (Error (''Cannot access project path: '' @ arg_project_path args)))
      else
        (let projectId = sanitizeProjectId (arg_project_name args) in
         case collection_error env of
           Some e \<Rightarrow> Some (st, Inl e)
         | None \<Rightarrow>
            (case collect_chunks env args of (cs, processedFiles) \<Rightarrow>
               if length cs > 0 then
                 (case storeChunksInBatches (store_add env) st cs projectId 100 of
                    None \<Rightarrow> None
                  | Some (st', Some e) \<Rightarrow> Some (st', Inl e)
                  | Some (st', None) \<Rightarrow>
                      Some (st', Inr (success_text env args processedFiles (length cs))))
               else Some (st, Inr (success_text env args processedFiles (length cs))))))"

text \<open>The \<^verbatim>\<open>catch\<close> of the tool dispatch (\<^verbatim>\<open>callTool\<close> and the stdio request handler):
  \<^verbatim>\<open>error instanceof Error ? error.message : String(error)\<close> after \<^verbatim>\<open>Error: \<close>.\<close>

fun error_message :: "js_error \<Rightarrow> string" where
  "error_message (Error m) = m"
| "error_message (Thrown s) = s"

definition tool_response :: "js_error + string \<Rightarrow> string" where
  "tool_response r = (case r of Inl e \<Rightarrow> ''Error: '' @ error_message e | Inr text \<Rightarrow> text)"

definition callTool_index_local_project ::
  "'s index_env \<Rightarrow> 's \<Rightarrow> index_args \<Rightarrow> ('s \<times> string) option" where
  "callTool_index_local_project env st args =
     map_option (\<lambda>(st', r). (st', tool_response r)) (indexLocalProject env st args)"

lemma writes_first_failure:
  assumes "k < length rs"
      and "writes add st (take k rs) = (st1, None)"
      and "add st1 (rs ! k) = (st2, Some e)"
  shows "writes add st rs = (st2, Some e)"
proof -
  have "rs = take k rs @ rs ! k # drop (Suc k) rs"
    using assms(1) by (rule id_take_nth_drop)
  then have "writes add st rs = writes add st (take k rs @ rs ! k # drop (Suc k) rs)"
    by simp
  also have "\<dots> = (st2, Some e)"
    by (simp only: writes_append assms(2,3) writes.simps prod.case option.case)
  finally show ?thesis .
qed

text \<open>
  C7. Let the indexing run reach the ingestor with the chunk list \<open>cs\<close>, let the first \<open>k\<close>
  batches be written without error, taking the store from \<open>st\<close> to \<open>st1\<close>, and let the write
  of batch \<open>k\<close> throw \<open>e\<close>, leaving the store in \<open>st2\<close>. Then the ingestor returns, throwing
  \<open>e\<close>, with the store in \<open>st2\<close>: nothing is written after the failing call and nothing
  written before it is undone. \<^verbatim>\<open>indexLocalProject\<close> throws the same error instead of
  returning its summary, and the tool dispatch answers \<^verbatim>\<open>Error: \<close> and the message.
\<close>

theorem batch_write_failure:
  assumes "root_stat env = Inr True" and "collection_error env = None"
      and "collect_chunks env args = (cs, n)"
      and "k < length (batches cs (sanitizeProjectId (arg_project_name args)) 100)"
      and "writes (store_add env) st
             (take k (batches cs (sanitizeProjectId (arg_project_name args)) 100)) = (st1, None)"
      and "store_add env st1 (batches cs (sanitizeProjectId (arg_project_name args)) 100 ! k)
             = (st2, Some e)"
  shows "storeChunksInBatches (store_add env) st cs (sanitizeProjectId (arg_project_name args)) 100
           = Some (st2, Some e)
       \<and> indexLocalProject env st args = Some (st2, Inl e)
       \<and> callTool_index_local_project env st args = Some (st2, ''Error: '' @ error_message e)"
proof -
  let ?pid = "sanitizeProjectId (arg_project_name args)"
  have w: "writes (store_add env) st (batches cs ?pid 100) = (st2, Some e)"
    using assms(4-6) by (rule writes_first_failure)
  then have s: "storeChunksInBatches (store_add env) st cs ?pid 100 = Some (st2, Some e)"
    by (simp add: storeChunksInBatches_writes)
  have "batches cs ?pid 100 \<noteq> []" using assms(4) by auto
  then have "cs \<noteq> []" by (auto simp: batches_def)
  then have i: "indexLocalProject env st args = Some (st2, Inl e)"
    using assms(1-3) s by (simp add: indexLocalProject_def)
  then show ?thesis using s
    by (simp add: callTool_index_local_project_def tool_response_def)
qed

text \<open>A store that records what is written and fails on write number \<open>k\<close> (from 0).\<close>

definition failing_add ::
  "nat \<Rightarrow> js_error \<Rightarrow> add_request list \<Rightarrow> add_request \<Rightarrow> add_request list \<times> js_error option" where
  "failing_add k e written r = (if length written = k then (written, Some e) else (written @ [r], None))"

text \<open>
  An example of the file loop: the file under \<^verbatim>\<open>node_modules\<close> is pruned by the default
  exclude patterns, the other gives one chunk of two lines.
\<close>

definition demo_env :: "add_request list index_env" where
  "demo_env =
     \<lparr>root_stat = Inr True, collection_error = None,
      root_listing = Inr [DirEntry ''src'' (Inr [FileEntry ''a.py'' (Inr [''x = 1'', ''y = 2''])]),
                          DirEntry ''node_modules'' (Inr [FileEntry ''b.js'' (Inr [''z''])])],
      store_add = failing_add 0 (Error ''store down''),
      extname = (\<lambda>p. ''.py''), now = (\<lambda>n. ''2024-01-01T00:00:00.000Z''),
      embedding_provider = ''ollama''\<rparr>"

definition demo_args :: index_args where
  "demo_args = \<lparr>arg_project_path = ''/p'', arg_project_name = ''My App'',
                 include_patterns = Some [''*.py'', ''*.js''], exclude_patterns = None\<rparr>"

definition demo_chunks :: "indexed_chunk list" where
  "demo_chunks =
     [\<lparr>content = ''x = 1'' @ newline @ ''y = 2'', file_path = ''src/a.py'', file_type = ''py'',
       chunk_index = 0, project_id = ''my_app'', project_name = ''My App'',
       project_path = ''/p'', source_type = ''local'',
       indexed_at = ''2024-01-01T00:00:00.000Z''\<rparr>]"

lemma collect_chunks_example: "collect_chunks demo_env demo_args = (demo_chunks, 1)"
  by code_simp

text \<open>
  A run of 101 one-line files against a store whose second write fails: the first batch
  of 100 stays in the store, the last chunk is never written, and the request fails.
\<close>

definition big_env :: "add_request list index_env" where
  "big_env =
     \<lparr>root_stat = Inr True, collection_error = None,
      root_listing =
        Inr (map (\<lambda>i. FileEntry (''f'' @ string_of_nat i @ ''.py'') (Inr [''x = 1''])) [0..<101]),
      store_add = failing_add 1 (Error ''store down''),
      extname = (\<lambda>p. ''.py''), now = (\<lambda>n. ''2024-01-01T00:00:00.000Z''),
      embedding_provider = ''ollama''\<rparr>"

definition big_args :: index_args where
  "big_args = \<lparr>arg_project_path = ''/p'', arg_project_name = ''my_app'',
                include_patterns = Some [], exclude_patterns = Some []\<rparr>"

lemma getFilesToIndex_all_files:
  "getFilesToIndex (Inr (map (\<lambda>i. FileEntry (nm i) d) is)) pp [] []
     = map (\<lambda>i. \<lparr>full_path = path_join pp (nm i), relative_path = nm i, file_lines = d\<rparr>) is"
  by (simp add: getFilesToIndex_def Let_def relative_join_def comp_def)

lemma one_line_one_chunk:
  "processFileWithStreaming [''x = 1''] rp ft 1500
     = [\<lparr>content = ''x = 1'', file_path = rp, file_type = ft, chunk_index = 0\<rparr>]"
  by (simp add: processFileWithStreaming_def onLine_def onClose_def chunker_init_def
        trim_def is_ws_def Let_def)

lemma length_index_files:
  assumes "\<forall>f\<in>set fs. file_lines f = Inr [''x = 1'']"
  shows "length (fst (foldl (index_file env pp pn pid) (cs, p) fs)) = length cs + length fs"
  using assms
proof (induction fs arbitrary: cs p)
  case Nil
  show ?case by simp
next
  case (Cons f fs)
  then have f: "file_lines f = Inr [''x = 1'']" by simp
  obtain cs' p' where step: "index_file env pp pn pid (cs, p) f = (cs', p')"
    by (cases "index_file env pp pn pid (cs, p) f") auto
  then have "length cs' = length cs + 1"
    by (auto simp: index_file_def f one_line_one_chunk Let_def)
  moreover have "length (fst (foldl (index_file env pp pn pid) (cs', p') fs)) = length cs' + length fs"
    using Cons by simp
  ultimately show ?case using step by simp
qed

lemma big_chunks: "length (fst (collect_chunks big_env big_args)) = 101"
proof -
  have "getFilesToIndex (root_listing big_env) (arg_project_path big_args) [] []
          = map (\<lambda>i. \<lparr>full_path = path_join ''/p'' (''f'' @ string_of_nat i @ ''.py''),
                       relative_path = ''f'' @ string_of_nat i @ ''.py'',
                       file_lines = Inr [''x = 1'']\<rparr>) [0..<101]"
    unfolding big_env_def big_args_def by (simp add: getFilesToIndex_all_files)
  then show ?thesis
    by (simp add: collect_chunks_def big_args_def length_index_files)
qed

theorem batch_write_failure_witness:
  "root_stat big_env = Inr True \<and> collection_error big_env = None
   \<and> length (fst (collect_chunks big_env big_args)) = 101
   \<and> length (batches (fst (collect_chunks big_env big_args)) ''my_app'' 100) = 2
   \<and> length (ids (batches (fst (collect_chunks big_env big_args)) ''my_app'' 100 ! 0)) = 100
   \<and> storeChunksInBatches (store_add big_env) [] (fst (collect_chunks big_env big_args))
         ''my_app'' 100
       = Some ([batches (fst (collect_chunks big_env big_args)) ''my_app'' 100 ! 0],
               Some (Error ''store down''))
   \<and> indexLocalProject big_env [] big_args
       = Some ([batches (fst (collect_chunks big_env big_args)) ''my_app'' 100 ! 0],
               Inl (Error ''store down''))
   \<and> callTool_index_local_project big_env [] big_args
       = Some ([batches (fst (collect_chunks big_env big_args)) ''my_app'' 100 ! 0],
               ''Error: store down'')"
proof -
  let ?cs = "fst (collect_chunks big_env big_args)"
  have pid: "sanitizeProjectId (arg_project_name big_args) = ''my_app''"
    unfolding big_args_def by code_simp
  let ?bs = "batches ?cs ''my_app'' 100"
  have h1: "root_stat big_env = Inr True" and h2: "collection_error big_env = None"
    by (simp_all add: big_env_def)
  have h3: "collect_chunks big_env big_args = (?cs, snd (collect_chunks big_env big_args))"
    by simp
  have len: "length ?bs = 2" by (simp add: batches_def big_chunks)
  then have h4: "1 < length ?bs" by simp
  have t1: "take 1 ?bs = [?bs ! 0]"
    using len by (cases ?bs) auto
  have h5: "writes (store_add big_env) [] (take 1 ?bs) = ([?bs ! 0], None)"
    unfolding t1 by (simp add: big_env_def failing_add_def)
  have h6: "store_add big_env [?bs ! 0] (?bs ! 1) = ([?bs ! 0], Some (Error ''store down''))"
    by (simp add: big_env_def failing_add_def)
  have b0: "length (ids (?bs ! 0)) = 100"
    using len by (simp add: batches_def batch_request_def Let_def big_chunks)
  note t = batch_write_failure [of big_env big_args ?cs _ 1 "[]" "[?bs ! 0]" "[?bs ! 0]"
      "Error ''store down''", unfolded pid, OF h1 h2 h3 h4 h5 h6]
  from t h1 h2 big_chunks len b0 show ?thesis by simp
qed

section \<open>EmbeddingProvider: \<^verbatim>\<open>OllamaEmbeddingFunction.generate\<close>\<close>

text \<open>
  What one \<^verbatim>\<open>fetch\<close> and the reading of its body can give: the call throws (transport
  error), or there is a response with its \<^verbatim>\<open>ok\<close> flag, its status text and a body. The
  body does not parse as JSON, or parses to \<^verbatim>\<open>null\<close> (reading \<^verbatim>\<open>data.embedding\<close> then
  throws), or carries the \<^verbatim>\<open>embedding\<close> array of the endpoint's contract.
\<close>

datatype 'n response_body = Unparseable js_error | NullBody | Embedding "'n list"

datatype 'n fetch_result = TransportError js_error | Response bool string "'n response_body"

record embedding_request =
  url :: string
  request_model :: string
  prompt :: string

text \<open>The body of the \<^verbatim>\<open>try\<close> for one text: the vector to push, or the value thrown.\<close>

fun request_embedding :: "'n fetch_result \<Rightarrow> js_error + 'n list" where
  "request_embedding (TransportError e) = Inl e"
| "request_embedding (Response ok statusText body) =
     (if \<not> ok then Inl (Error (''Ollama API error: '' @ statusText))
      else (case body of
              Unparseable e \<Rightarrow> Inl e
            | NullBody \<Rightarrow> Inl (Error ''Cannot read properties of null'')
            | Embedding v \<Rightarrow> Inr v))"

text \<open>
  The loop over the texts. The endpoint is a parameter: \<open>fetch k r\<close> is the outcome of the
  request \<open>r\<close> when it is the \<open>k\<close>-th request of the call (the requests are made one after
  the other). The \<^verbatim>\<open>catch\<close> pushes \<^verbatim>\<open>new Array(384).fill(0)\<close>. No statement of the method
  is outside the \<^verbatim>\<open>try\<close> except the loop and the \<^verbatim>\<open>return\<close>, so the result is a plain
  list: the method has no path that throws.
\<close>

fun generate_from ::
  "(nat \<Rightarrow> embedding_request \<Rightarrow> ('n::zero) fetch_result) \<Rightarrow> string \<Rightarrow> string \<Rightarrow> nat \<Rightarrow> string list
     \<Rightarrow> 'n list list" where
  "generate_from fetch host model k [] = []"
| "generate_from fetch host model k (text # texts) =
     (case request_embedding
             (fetch k \<lparr>url = host @ ''/api/embeddings'', request_model = model, prompt = text\<rparr>) of
        Inr v \<Rightarrow> v
      | Inl error \<Rightarrow> replicate 384 0)
     # generate_from fetch host model (k + 1) texts"

definition generate ::
  "(nat \<Rightarrow> embedding_request \<Rightarrow> ('n::zero) fetch_result) \<Rightarrow> string \<Rightarrow> string \<Rightarrow> string list
     \<Rightarrow> 'n list list" where
  "generate fetch host model texts = generate_from fetch host model 0 texts"

text \<open>A request fails when the call throws or the response is not a success.\<close>

fun request_failed :: "'n fetch_result \<Rightarrow> bool" where
  "request_failed (TransportError e) = True"
| "request_failed (Response ok statusText body) = (\<not> ok)"

lemma length_generate_from: "length (generate_from fetch host model k texts) = length texts"
  by (induction texts arbitrary: k) simp_all

lemma generate_from_nth:
  "i < length texts \<Longrightarrow>
     generate_from fetch host model k texts ! i =
       (case request_embedding
               (fetch (k + i) \<lparr>url = host @ ''/api/embeddings'', request_model = model,
                              prompt = texts ! i\<rparr>) of
          Inr v \<Rightarrow> v
        | Inl error \<Rightarrow> replicate 384 0)"
proof (induction texts arbitrary: k i)
  case Nil
  then show ?case by simp
next
  case (Cons t ts)
  show ?case
  proof (cases i)
    case 0
    then show ?thesis by simp
  next
    case (Suc j)
    then have "j < length ts" using Cons.prems by simp
    from Cons.IH [OF this, of "k + 1"] Suc show ?thesis by simp
  qed
qed

lemma request_failed_Inl: "request_failed r \<Longrightarrow> \<exists>e. request_embedding r = Inl e"
  by (cases r) auto

text \<open>
  C6. For every list of texts and every behaviour of the endpoint, \<^verbatim>\<open>generate\<close> returns a
  list with one entry per text, in the order of the texts (the method has no path that
  throws). The entry of a text whose request failed (the call threw, or the response was
  not a success) is the vector of 384 zeros, and the texts after it are still processed:
  the entry of a text whose request succeeded with an embedding is that embedding.
\<close>

theorem generate_total_with_fallback:
  "length (generate fetch host model texts) = length texts
   \<and> (\<forall>i<length texts.
        (request_failed (fetch i \<lparr>url = host @ ''/api/embeddings'', request_model = model,
                                  prompt = texts ! i\<rparr>)
           \<longrightarrow> generate fetch host model texts ! i = replicate 384 0)
      \<and> (\<forall>s v. fetch i \<lparr>url = host @ ''/api/embeddings'', request_model = model,
                       prompt = texts ! i\<rparr> = Response True s (Embedding v)
           \<longrightarrow> generate fetch host model texts ! i = v))"
proof -
  have "generate fetch host model texts ! i = replicate 384 0"
    if "i < length texts"
      and "request_failed (fetch i \<lparr>url = host @ ''/api/embeddings'', request_model = model,
                                    prompt = texts ! i\<rparr>)" for i
    using generate_from_nth [OF that(1), of fetch host model 0] request_failed_Inl [OF that(2)]
    by (auto simp: generate_def)
  moreover have "generate fetch host model texts ! i = v"
    if "i < length texts"
      and "fetch i \<lparr>url = host @ ''/api/embeddings'', request_model = model,
                    prompt = texts ! i\<rparr> = Response True s (Embedding v)" for i s v
    using generate_from_nth [OF that(1), of fetch host model 0] that(2)
    by (simp add: generate_def)
  ultimately show ?thesis
    by (simp add: generate_def length_generate_from)
qed

text \<open>An endpoint that is unreachable for the first request, answers 500 to the second
  and an embedding to the others.\<close>

definition demo_fetch :: "nat \<Rightarrow> embedding_request \<Rightarrow> int fetch_result" where
  "demo_fetch k r =
     (if k = 0 then TransportError (Error ''fetch failed'')
      else if k = 1 then Response False ''Internal Server Error'' NullBody
      else Response True ''OK'' (Embedding [1, 2, 3]))"

theorem generate_total_with_fallback_witness:
  "request_failed (demo_fetch 0 \<lparr>url = ''http://localhost:11434'' @ ''/api/embeddings'',
                                 request_model = ''nomic-embed-text'', prompt = [''a'', ''b'', ''c''] ! 0\<rparr>)
   \<and> request_failed (demo_fetch 1 \<lparr>url = ''http://localhost:11434'' @ ''/api/embeddings'',
                                 request_model = ''nomic-embed-text'', prompt = [''a'', ''b'', ''c''] ! 1\<rparr>)
   \<and> length (generate demo_fetch ''http://localhost:11434'' ''nomic-embed-text'' [''a'', ''b'', ''c'']) = 3
   \<and> generate demo_fetch ''http://localhost:11434'' ''nomic-embed-text'' [''a'', ''b'', ''c''] ! 0
       = replicate 384 0
   \<and> generate demo_fetch ''http://localhost:11434'' ''nomic-embed-text'' [''a'', ''b'', ''c''] ! 1
       = replicate 384 0
   \<and> generate demo_fetch ''http://localhost:11434'' ''nomic-embed-text'' [''a'', ''b'', ''c''] ! 2
       = [1, 2, 3]"
proof -
  let ?g = "generate demo_fetch ''http://localhost:11434'' ''nomic-embed-text'' [''a'', ''b'', ''c'']"
  note t = generate_total_with_fallback
    [of demo_fetch "''http://localhost:11434''" "''nomic-embed-text''" "[''a'', ''b'', ''c'']"]
  have f0: "request_failed (demo_fetch 0 \<lparr>url = ''http://localhost:11434'' @ ''/api/embeddings'',
                                 request_model = ''nomic-embed-text'', prompt = [''a'', ''b'', ''c''] ! 0\<rparr>)"
    and f1: "request_failed (demo_fetch 1 \<lparr>url = ''http://localhost:11434'' @ ''/api/embeddings'',
                                 request_model = ''nomic-embed-text'', prompt = [''a'', ''b'', ''c''] ! 1\<rparr>)"
    and f2: "demo_fetch 2 \<lparr>url = ''http://localhost:11434'' @ ''/api/embeddings'',
                                 request_model = ''nomic-embed-text'', prompt = [''a'', ''b'', ''c''] ! 2\<rparr>
              = Response True ''OK'' (Embedding [1, 2, 3])"
    by (simp_all add: demo_fetch_def)
  from t have len: "length ?g = 3" by simp
  from t f0 have g0: "?g ! 0 = replicate 384 0" by simp
  from t f1 have g1: "?g ! 1 = replicate 384 0" by simp
  from t f2 have g2: "?g ! 2 = [1, 2, 3]" by simp
  from f0 f1 len g0 g1 g2 show ?thesis by blast
qed

section \<open>QueryEngine\<close>

text \<open>
  Metadata as the store returns it: every field may be missing. A missing field prints as
  \<^verbatim>\<open>undefined\<close> in a template literal.
\<close>

record stored_metadata =
  sm_file_path :: "string option"
  sm_project_name :: "string option"
  sm_file_type :: "string option"
  sm_chunk_index :: "int option"

definition template_text :: "string option \<Rightarrow> string" where
  "template_text v = (case v of None \<Rightarrow> ''undefined'' | Some s \<Rightarrow> s)"

text \<open>\<^verbatim>\<open>metadata?.field\<close>\<close>

definition opt_field :: "(stored_metadata \<Rightarrow> 'a option) \<Rightarrow> stored_metadata option \<Rightarrow> 'a option" where
  "opt_field f m = (case m of None \<Rightarrow> None | Some md \<Rightarrow> f md)"



subsection \<open>\<^verbatim>\<open>getFileContent\<close>\<close>













subsection \<open>\<^verbatim>\<open>searchCodebase\<close>\<close>

text \<open>The filter \<^verbatim>\<open>{field: {$eq: value}}\<close> on \<^verbatim>\<open>project_id\<close> or \<^verbatim>\<open>file_type\<close>.\<close>

datatype where_clause = ProjectIdEq string | FileTypeEq string

record query_request =
  queryTexts :: "string list"
  nResults :: int
  where_filter :: "where_clause option"

text \<open>The result of \<^verbatim>\<open>collection.query\<close>: one inner array per query text.\<close>

record 'd query_result =
  qr_documents :: "string option list list"
  qr_metadatas :: "stored_metadata option list list option"
  qr_distances :: "'d option list list option"

text \<open>
  Distances are JavaScript numbers. Their type is a parameter \<open>'d\<close>, with the three
  operations the formatting uses: the number 0, the test for a falsy number (0 or NaN)
  that \<^verbatim>\<open>|| 0\<close> makes, and the text of \<^verbatim>\<open>(1 - distance).toFixed(3)\<close>.
\<close>

record 'd js_number =
  num_zero :: 'd
  num_falsy :: "'d \<Rightarrow> bool"
  one_minus_toFixed3 :: "'d \<Rightarrow> string"

record 'd search_env =
  se_collection_error :: "js_error option"
  store_query :: "query_request \<Rightarrow> js_error + 'd query_result"
  numbers :: "'d js_number"

record search_args =
  query :: string
  limit :: "int option"
  project_filter :: "string option"

text \<open>
  \<^verbatim>\<open>if (project_filter)\<close> adds the filter only for a truthy string, and the query gets
  \<^verbatim>\<open>where: undefined\<close> when the clause has no key.
\<close>

definition search_request :: "search_args \<Rightarrow> query_request" where
  "search_request args =
     (let whereClause = (case project_filter args of
                           None \<Rightarrow> None
                         | Some f \<Rightarrow> if f \<noteq> [] then Some (ProjectIdEq f) else None)
      in \<lparr>queryTexts = [query args],
          nResults = (case limit args of None \<Rightarrow> 10 | Some l \<Rightarrow> l),
          where_filter = whereClause\<rparr>)"

text \<open>\<^verbatim>\<open>xs?.[0]?.[i]\<close>\<close>

definition first_row_nth :: "'a option list list option \<Rightarrow> nat \<Rightarrow> 'a option" where
  "first_row_nth xs i =
     (case xs of None \<Rightarrow> None | Some [] \<Rightarrow> None
      | Some (row # _) \<Rightarrow> if i < length row then row ! i else None)"

definition similarity :: "'d js_number \<Rightarrow> 'd option \<Rightarrow> string" where
  "similarity ops d =
     (let distance = (case d of None \<Rightarrow> num_zero ops
                      | Some x \<Rightarrow> if num_falsy ops x then num_zero ops else x)
      in one_minus_toFixed3 ops distance)"

definition format_result :: "'d js_number \<Rightarrow> 'd query_result \<Rightarrow> nat \<times> string option \<Rightarrow> string" where
  "format_result ops results r =
     (case r of (i, doc) \<Rightarrow>
       (let md = first_row_nth (qr_metadatas results) i;
            distance = first_row_nth (qr_distances results) i
        in ''## Result '' @ string_of_nat (i + 1) @ '' (Similarity: '' @ similarity ops distance @ '')''
             @ newline @
           ''**File:** '' @ template_text (opt_field sm_file_path md) @ newline @
           ''**Project:** '' @ template_text (opt_field sm_project_name md) @ newline @ newline @
           ''```'' @ template_text (opt_field sm_file_type md) @ newline @
           (case doc of None \<Rightarrow> ''null'' | Some s \<Rightarrow> s) @ newline @
           ''```'' @ newline))"

definition searchCodebase :: "'d search_env \<Rightarrow> search_args \<Rightarrow> js_error + string" where
  "searchCodebase env args =
     (case se_collection_error env of
        Some e \<Rightarrow> Inl e
      | None \<Rightarrow>
         (case store_query env (search_request args) of
            Inl e \<Rightarrow> Inl e
          | Inr results \<Rightarrow>
             (case qr_documents results of
                [] \<Rightarrow> Inr ''No results found for your query.''
              | docs # _ \<Rightarrow>
                 if length docs = 0 then Inr ''No results found for your query.''
                 else
                   (let formattedResults =
                          join (newline @ ''---'' @ newline @ newline)
                            (map (format_result (numbers env) results) (enumerate 0 docs))
                    in Inr (''Found '' @ string_of_nat (length docs) @ '' results for: ''
                            @ [CHR 0x22] @ query args @ [CHR 0x22] @ newline @ newline
                            @ formattedResults)))))"

text \<open>
  C10. For every query, limit and store, \<^verbatim>\<open>searchCodebase\<close> with \<^verbatim>\<open>project_filter\<close> the
  empty string does what it does with \<^verbatim>\<open>project_filter\<close> omitted: the request sent to
  the store is the same, with no \<^verbatim>\<open>where\<close> clause, and so is the result. A non-empty
  filter does send the equality filter on \<^verbatim>\<open>project_id\<close>.
\<close>

theorem empty_project_filter_is_no_filter:
  "searchCodebase env (args\<lparr>project_filter := Some ''''\<rparr>)
     = searchCodebase env (args\<lparr>project_filter := None\<rparr>)
   \<and> search_request (args\<lparr>project_filter := Some ''''\<rparr>)
     = search_request (args\<lparr>project_filter := None\<rparr>)
   \<and> where_filter (search_request (args\<lparr>project_filter := Some ''''\<rparr>)) = None
   \<and> where_filter (search_request (args\<lparr>project_filter := Some ''my_app''\<rparr>))
     = Some (ProjectIdEq ''my_app'')"
proof -
  have r: "search_request (args\<lparr>project_filter := Some ''''\<rparr>)
             = search_request (args\<lparr>project_filter := None\<rparr>)"
    by (simp add: search_request_def)
  have "searchCodebase env (args\<lparr>project_filter := Some ''''\<rparr>)
          = searchCodebase env (args\<lparr>project_filter := None\<rparr>)"
    by (simp add: searchCodebase_def r Let_def split: option.splits sum.splits list.splits)
  moreover have "where_filter (search_request (args\<lparr>project_filter := Some ''''\<rparr>)) = None"
    by (simp add: search_request_def)
  moreover have "where_filter (search_request (args\<lparr>project_filter := Some ''my_app''\<rparr>))
                   = Some (ProjectIdEq ''my_app'')"
    by (simp add: search_request_def)
  ultimately show ?thesis using r by blast
qed

subsection \<open>\<^verbatim>\<open>searchByFileType\<close>\<close>

text \<open>The same query with the filter on \<^verbatim>\<open>file_type\<close>; \<^verbatim>\<open>query || file_type\<close> is the text
  searched for, and each result has one more line, the type.\<close>

definition file_type_request :: "string \<Rightarrow> string option \<Rightarrow> int option \<Rightarrow> query_request" where
  "file_type_request fileType queryText n_results =
     (let searchQuery = (case queryText of None \<Rightarrow> fileType
                         | Some q \<Rightarrow> if q \<noteq> [] then q else fileType)
      in \<lparr>queryTexts = [searchQuery],
          nResults = (case n_results of None \<Rightarrow> 10 | Some n \<Rightarrow> n),
          where_filter = Some (FileTypeEq fileType)\<rparr>)"

definition format_file_type_result ::
  "'d js_number \<Rightarrow> 'd query_result \<Rightarrow> nat \<times> string option \<Rightarrow> string" where
  "format_file_type_result ops results r =
     (case r of (i, doc) \<Rightarrow>
       (let md = first_row_nth (qr_metadatas results) i;
            distance = first_row_nth (qr_distances results) i
        in ''## Result '' @ string_of_nat (i + 1) @ '' (Similarity: '' @ similarity ops distance @ '')''
             @ newline @
           ''**File:** '' @ template_text (opt_field sm_file_path md) @ newline @
           ''**Project:** '' @ template_text (opt_field sm_project_name md) @ newline @
           ''**Type:** '' @ template_text (opt_field sm_file_type md) @ newline @ newline @
           ''```'' @ template_text (opt_field sm_file_type md) @ newline @
           (case doc of None \<Rightarrow> ''null'' | Some s \<Rightarrow> s) @ newline @
           ''```'' @ newline))"

definition searchByFileType ::
  "'d search_env \<Rightarrow> string \<Rightarrow> string option \<Rightarrow> int option \<Rightarrow> js_error + string" where
  "searchByFileType env fileType queryText n_results =
     (case se_collection_error env of
        Some e \<Rightarrow> Inl e
      | None \<Rightarrow>
         (case store_query env (file_type_request fileType queryText n_results) of
            Inl e \<Rightarrow> Inl e
          | Inr results \<Rightarrow>
             (case qr_documents results of
                [] \<Rightarrow> Inr (''No results found for file type: '' @ fileType)
              | docs # _ \<Rightarrow>
                 if length docs = 0 then Inr (''No results found for file type: '' @ fileType)
                 else
                   (let formattedResults =
                          join (newline @ ''---'' @ newline @ newline)
                            (map (format_file_type_result (numbers env) results) (enumerate 0 docs))
                    in Inr (''Found '' @ string_of_nat (length docs) @ '' results for file type ''
                            @ [CHR 0x22] @ fileType @ [CHR 0x22] @ '':'' @ newline @ newline
                            @ formattedResults)))))"

subsection \<open>The similarity shown\<close>

text \<open>
  The numbers of the runtime, for the operations of \<^verbatim>\<open>(1 - distance).toFixed(3)\<close>: a
  finite number is given by its exact value, a rational; the other numbers are NaN and
  the two infinities. (Negative zero is not told apart from zero: it is falsy like zero,
  and \<^verbatim>\<open>1 - distance\<close> is never negative zero.)
\<close>

datatype jsnum = Fin rat | NaN | PosInf | NegInf

text \<open>
  \<^verbatim>\<open>1 - distance\<close>. The difference of two finite numbers is the exact difference rounded
  to a double; the rounding is the parameter \<open>fl\<close>. (The difference of 1 and a double
  does not overflow.)
\<close>

definition one_minus :: "(rat \<Rightarrow> rat) \<Rightarrow> jsnum \<Rightarrow> jsnum" where
  "one_minus fl d =
     (case d of Fin r \<Rightarrow> Fin (fl (1 - r)) | NaN \<Rightarrow> NaN | PosInf \<Rightarrow> NegInf | NegInf \<Rightarrow> PosInf)"

text \<open>
  \<^verbatim>\<open>x.toFixed(3)\<close>, as ECMA-262 defines \<^verbatim>\<open>Number.prototype.toFixed\<close>: a number that is not
  finite gives its name; otherwise the sign is taken off; from \<open>10\<^sup>2\<^sup>1\<close> on the text is that
  of \<^verbatim>\<open>Number::toString\<close> (exponential notation, the parameter \<open>toString\<close>); below, \<open>n\<close> is
  the integer nearest to \<open>1000 * x\<close> (the larger of two), its decimal digits are padded
  with zeros to four digits at least, and the point goes before the last three.
\<close>

definition toFixed3 :: "(rat \<Rightarrow> string) \<Rightarrow> jsnum \<Rightarrow> string" where
  "toFixed3 toString x =
     (case x of
        NaN \<Rightarrow> ''NaN''
      | PosInf \<Rightarrow> ''Infinity''
      | NegInf \<Rightarrow> ''-Infinity''
      | Fin r \<Rightarrow>
          (let s = (if r < 0 then ''-'' else []);
               a = \<bar>r\<bar>
           in if a \<ge> 10 ^ 21 then s @ toString a
              else
                (let n = nat \<lfloor>a * 1000 + 1 / 2\<rfloor>;
                     m = string_of_nat n;
                     k = length m;
                     m' = (if k \<le> 3 then replicate (3 + 1 - k) CHR ''0'' @ m else m)
                 in s @ take (length m' - 3) m' @ ''.'' @ drop (length m' - 3) m')))"

text \<open>The numbers as \<^verbatim>\<open>searchCodebase\<close> and \<^verbatim>\<open>searchByFileType\<close> use them: 0 and NaN are
  falsy.\<close>

definition js_numbers :: "(rat \<Rightarrow> rat) \<Rightarrow> (rat \<Rightarrow> string) \<Rightarrow> jsnum js_number" where
  "js_numbers fl toString =
     \<lparr>num_zero = Fin 0,
      num_falsy = (\<lambda>d. d = Fin 0 \<or> d = NaN),
      one_minus_toFixed3 = (\<lambda>d. toFixed3 toString (one_minus fl d))\<rparr>"

lemma similarity_finite:
  "similarity (js_numbers fl ts) (Some (Fin d)) = toFixed3 ts (Fin (fl (1 - d)))"
  by (simp add: similarity_def js_numbers_def one_minus_def)



lemma floor_halves:
  "\<lfloor>(1001::rat) / 2\<rfloor> = 500" "\<lfloor>(1501::rat) / 2\<rfloor> = 750" "\<lfloor>(2001::rat) / 2\<rfloor> = 1000"
  by (simp_all add: floor_eq_iff)

lemma decimal_numerals:
  "string_of_nat 0 = ''0''" "string_of_nat 500 = ''500''" "string_of_nat 750 = ''750''"
  "string_of_nat 1000 = ''1000''"
  by code_simp+





text \<open>A search whose single result has the distance 1.5, as the caller sees it.\<close>

definition search_demo_env :: "jsnum search_env" where
  "search_demo_env =
     \<lparr>se_collection_error = None,
      store_query = (\<lambda>q. Inr \<lparr>qr_documents = [[Some ''def login(): pass'']],
                               qr_metadatas = Some [[Some \<lparr>sm_file_path = Some ''src/auth.py'',
                                  sm_project_name = Some ''My App'', sm_file_type = Some ''py'',
                                  sm_chunk_index = Some 0\<rparr>]],
                               qr_distances = Some [[Some (Fin (3 / 2))]]\<rparr>),
      numbers = js_numbers (\<lambda>x. x) (\<lambda>a. [])\<rparr>"

lemma search_example:
  "searchCodebase search_demo_env \<lparr>query = ''login'', limit = None, project_filter = None\<rparr>
     = Inr (''Found 1 results for: '' @ [CHR 0x22] @ ''login'' @ [CHR 0x22] @ newline @ newline @
            ''## Result 1 (Similarity: -0.500)'' @ newline @
            ''**File:** src/auth.py'' @ newline @
            ''**Project:** My App'' @ newline @ newline @
            ''```py'' @ newline @ ''def login(): pass'' @ newline @ ''```'' @ newline)"
proof -
  have "string_of_nat 1 = ''1''" by code_simp
  then have one: "string_of_nat (Suc 0) = ''1''" by simp
  have sim: "similarity (js_numbers (\<lambda>x. x) (\<lambda>a. [])) (Some (Fin (3 / 2))) = ''-0.500''"
    by (simp add: similarity_finite toFixed3_def Let_def floor_halves decimal_numerals)
  show ?thesis
    by (simp add: searchCodebase_def search_demo_env_def search_request_def format_result_def
          first_row_nth_def opt_field_def template_text_def Let_def one sim enumerate_eq_zip)
qed

end
